theory Spec2Isabelle
  imports Complex_Main "HOL-Library.Multiset"
begin

section \<open>JavaScript values\<close>

text \<open>
  The storage manager \<^verbatim>\<open>MapStorage\<close> (map-storage.js) works on plain data: what the editor
  hands over and what \<^verbatim>\<open>JSON.parse\<close> returns. A number is an IEEE double; only its class
  (finite, NaN, an infinity) and the order of finite values matter to the code below, so a
  finite number carries a real.
\<close>

datatype jsnum = Fin real | NaN | PosInfinity | NegInfinity

datatype jsval =
    JUndefined
  | JNull
  | JBool bool
  | JNum jsnum
  | JStr string
  | JArr "jsval list"
  | JObj "(string \<times> jsval) list"

type_synonym props = "(string \<times> jsval) list"

datatype jstype = TUndefined | TObject | TBoolean | TNumber | TString

text \<open>\<^verbatim>\<open>typeof v\<close>: null and arrays are objects.\<close>

fun typeof :: "jsval \<Rightarrow> jstype" where
  "typeof JUndefined = TUndefined"
| "typeof JNull = TObject"
| "typeof (JBool b) = TBoolean"
| "typeof (JNum n) = TNumber"
| "typeof (JStr s) = TString"
| "typeof (JArr xs) = TObject"
| "typeof (JObj ps) = TObject"

text \<open>Truthiness, so that \<^verbatim>\<open>!v\<close> is \<open>\<not> truthy v\<close>: undefined, null, false, 0, NaN and the
  empty string are falsy.\<close>

fun truthy :: "jsval \<Rightarrow> bool" where
  "truthy JUndefined = False"
| "truthy JNull = False"
| "truthy (JBool b) = b"
| "truthy (JNum (Fin x)) = (x \<noteq> 0)"
| "truthy (JNum NaN) = False"
| "truthy (JNum PosInfinity) = True"
| "truthy (JNum NegInfinity) = True"
| "truthy (JStr s) = (s \<noteq> [])"
| "truthy (JArr xs) = True"
| "truthy (JObj ps) = True"

text \<open>\<^verbatim>\<open>isNaN(v)\<close> on a value whose type is already known to be number.\<close>

fun isNaN :: "jsval \<Rightarrow> bool" where
  "isNaN (JNum NaN) = True"
| "isNaN v = False"

text \<open>An object is the list of its own properties in insertion order; the first entry of a
  key is the property. Reading a property that is not there gives undefined.\<close>

definition lookup :: "props \<Rightarrow> string \<Rightarrow> jsval" where
  "lookup ps k = (case map_of ps k of None \<Rightarrow> JUndefined | Some v \<Rightarrow> v)"

text \<open>\<^verbatim>\<open>o.k = v\<close>: an existing property keeps its place, a new one goes last.\<close>

fun assign :: "string \<Rightarrow> jsval \<Rightarrow> props \<Rightarrow> props" where
  "assign k v [] = [(k, v)]"
| "assign k v (p # ps) = (if fst p = k then (k, v) # ps else p # assign k v ps)"

text \<open>\<^verbatim>\<open>v.k\<close> for a \<open>v\<close> that is neither null nor undefined. None of the names the code
  reads (id, title, created, \<dots>) is a property of an array, a string, a number or a
  boolean, so these give undefined.\<close>

fun getprop :: "jsval \<Rightarrow> string \<Rightarrow> jsval" where
  "getprop (JObj ps) k = lookup ps k"
| "getprop v k = JUndefined"

text \<open>\<^verbatim>\<open>a === b\<close>. Two objects or arrays met below are never the same reference (one of them
  always comes fresh out of \<^verbatim>\<open>JSON.parse\<close>), and NaN equals nothing.\<close>

fun strict_eq :: "jsval \<Rightarrow> jsval \<Rightarrow> bool" where
  "strict_eq JUndefined JUndefined = True"
| "strict_eq JNull JNull = True"
| "strict_eq (JBool a) (JBool b) = (a = b)"
| "strict_eq (JNum (Fin a)) (JNum (Fin b)) = (a = b)"
| "strict_eq (JNum PosInfinity) (JNum PosInfinity) = True"
| "strict_eq (JNum NegInfinity) (JNum NegInfinity) = True"
| "strict_eq (JStr a) (JStr b) = (a = b)"
| "strict_eq a b = False"

section \<open>The validators\<close>

text \<open>\<^verbatim>\<open>MapStorage.validateMarkerData\<close> (map-storage.js, lines 238-247).\<close>

definition validateMarkerData :: "jsval \<Rightarrow> bool" where
  "validateMarkerData markerData =
     (if \<not> truthy markerData \<or> typeof markerData \<noteq> TObject then False
      else if typeof (getprop markerData ''id'') = TUndefined then False
      else if \<not> truthy (getprop markerData ''titre'') \<or> typeof (getprop markerData ''titre'') \<noteq> TString then False
      else if typeof (getprop markerData ''lat'') \<noteq> TNumber \<or> isNaN (getprop markerData ''lat'') then False
      else if typeof (getprop markerData ''lon'') \<noteq> TNumber \<or> isNaN (getprop markerData ''lon'') then False
      else if \<not> truthy (getprop markerData ''couleur'') \<or> \<not> truthy (getprop markerData ''icone'') then False
      else True)"

text \<open>\<^verbatim>\<open>MapStorage.validateMapData\<close> (lines 213-231). The loop over the markers only logs a
  warning for each invalid marker; \<open>invalid_markers\<close> is the list it warns about, and the
  result does not depend on it.\<close>

definition invalid_markers :: "jsval \<Rightarrow> jsval list" where
  "invalid_markers mapData =
     (case getprop mapData ''markers'' of
        JArr ms \<Rightarrow> filter (\<lambda>marker. \<not> validateMarkerData marker) ms
      | _ \<Rightarrow> [])"

definition validateMapData :: "jsval \<Rightarrow> bool" where
  "validateMapData mapData =
     (if \<not> truthy mapData \<or> typeof mapData \<noteq> TObject then False
      else if \<not> truthy (getprop mapData ''id'') \<or> typeof (getprop mapData ''id'') \<noteq> TString then False
      else if \<not> truthy (getprop mapData ''title'') \<or> typeof (getprop mapData ''title'') \<noteq> TString then False
      else if \<not> truthy (getprop mapData ''created'') \<or> \<not> truthy (getprop mapData ''modified'') then False
      else True)"

text \<open>The marker of the spec's validation example, with the given latitude and longitude.
  The icon is the fork-and-knife emoji, four bytes in UTF-8.\<close>

definition example_marker :: "real \<Rightarrow> real \<Rightarrow> jsval" where
  "example_marker la lo =
     JObj [(''titre'', JStr ''x''), (''lat'', JNum (Fin la)), (''lon'', JNum (Fin lo)),
           (''couleur'', JStr ''red''),
           (''icone'', JStr [char_of (240::nat), char_of (159::nat), char_of (141::nat), char_of (180::nat)]),
           (''id'', JNum (Fin 1))]"

section \<open>The browser around the code\<close>

text \<open>
  What \<^verbatim>\<open>JSON.parse(JSON.stringify(v))\<close> gives back: a property whose value is undefined is
  left out, undefined in an array becomes null, and so do NaN and the infinities.
\<close>

fun json_roundtrip :: "jsval \<Rightarrow> jsval" where
  "json_roundtrip JUndefined = JNull"
| "json_roundtrip JNull = JNull"
| "json_roundtrip (JBool b) = JBool b"
| "json_roundtrip (JNum (Fin x)) = JNum (Fin x)"
| "json_roundtrip (JNum NaN) = JNull"
| "json_roundtrip (JNum PosInfinity) = JNull"
| "json_roundtrip (JNum NegInfinity) = JNull"
| "json_roundtrip (JStr s) = JStr s"
| "json_roundtrip (JArr xs) = JArr (map json_roundtrip xs)"
| "json_roundtrip (JObj ps) =
     JObj (map (\<lambda>p. (fst p, json_roundtrip (snd p))) (filter (\<lambda>p. snd p \<noteq> JUndefined) ps))"

text \<open>The properties of an object that comes back from the serialisation as it is.\<close>

definition plain_props :: "props \<Rightarrow> bool" where
  "plain_props ps = (\<forall>p\<in>set ps. snd p \<noteq> JUndefined \<and> json_roundtrip (snd p) = snd p)"

text \<open>
  A text kept in \<^verbatim>\<open>localStorage\<close> or handed to \<^verbatim>\<open>importMaps\<close> is either not JSON
  (\<open>Unparsable\<close>, the empty string included) or the serialisation \<^verbatim>\<open>JSON.stringify(v)\<close> of a
  value, written \<open>Json v\<close>; parsing it gives \<open>json_roundtrip v\<close>.
\<close>

datatype jstext = Unparsable | Json jsval

datatype js_error =
    SyntaxError
  | TypeError
  | QuotaExceededError
  | OtherDOMException
  | Error string

fun JSON_parse :: "jstext \<Rightarrow> js_error + jsval" where
  "JSON_parse Unparsable = Inl SyntaxError"
| "JSON_parse (Json v) = Inr (json_roundtrip v)"

text \<open>
  The outcome of one write to \<^verbatim>\<open>localStorage\<close> (\<^verbatim>\<open>setItem\<close> or \<^verbatim>\<open>removeItem\<close>): it is done,
  or it throws the DOMException named QuotaExceededError, or it throws something else.
\<close>

datatype write_result = WriteOk | WriteQuota | WriteFails

text \<open>
  The state the code runs in. \<open>items\<close> is the content of \<^verbatim>\<open>localStorage\<close>. What the code
  cannot decide is given by the environment: \<open>write_results\<close> says how the n-th write ends
  and \<open>writes\<close> counts the writes made so far; \<open>clock\<close> is the millisecond time the n-th
  look at the clock gives; \<open>random36\<close> is the text the n-th
  \<^verbatim>\<open>Math.random().toString(36).substr(2, 9)\<close> gives. \<open>date_value v\<close> is the time value of
  \<^verbatim>\<open>new Date(v)\<close>, None when the date is invalid (its time value is NaN), and \<open>iso_string\<close>
  is \<^verbatim>\<open>toISOString\<close> on a time value. \<open>engine_order\<close> is the order in which the engine's
  \<^verbatim>\<open>Array.prototype.sort\<close> leaves an array when the comparator is not consistent, which the
  language leaves to the implementation: for a comparator and an array it ranks the
  positions of the array.
\<close>

record world =
  items :: "string \<Rightarrow> jstext option"
  write_results :: "nat \<Rightarrow> write_result"
  writes :: nat
  clock :: "nat \<Rightarrow> int"
  clock_reads :: nat
  random36 :: "nat \<Rightarrow> string"
  random_draws :: nat
  date_value :: "jsval \<Rightarrow> int option"
  iso_string :: "int \<Rightarrow> string"
  engine_order :: "(jsval \<Rightarrow> jsval \<Rightarrow> int option) \<Rightarrow> jsval list \<Rightarrow> nat \<Rightarrow> int"

definition STORAGE_KEY :: string where
  "STORAGE_KEY = ''mapCreator_maps''"

definition SETTINGS_KEY :: string where
  "SETTINGS_KEY = ''mapCreator_settings''"

definition MAX_MAPS :: nat where
  "MAX_MAPS = 50"

definition VERSION :: string where
  "VERSION = ''1.0.0''"

text \<open>\<^verbatim>\<open>localStorage.setItem(key, JSON.stringify(v))\<close> and \<^verbatim>\<open>localStorage.removeItem(key)\<close>:
  the result of the write, and the state after it.\<close>

definition setItem :: "world \<Rightarrow> string \<Rightarrow> jsval \<Rightarrow> write_result \<times> world" where
  "setItem w key v =
     (let r = write_results w (writes w);
          w' = w\<lparr>writes := Suc (writes w)\<rparr>
      in (r, if r = WriteOk then w'\<lparr>items := (items w)(key \<mapsto> Json v)\<rparr> else w'))"

definition removeItem :: "world \<Rightarrow> string \<Rightarrow> write_result \<times> world" where
  "removeItem w key =
     (let r = write_results w (writes w);
          w' = w\<lparr>writes := Suc (writes w)\<rparr>
      in (r, if r = WriteOk then w'\<lparr>items := (items w)(key := None)\<rparr> else w'))"

text \<open>\<^verbatim>\<open>Date.now()\<close>, \<^verbatim>\<open>new Date().toISOString()\<close> and the random suffix.\<close>

definition Date_now :: "world \<Rightarrow> int \<times> world" where
  "Date_now w = (clock w (clock_reads w), w\<lparr>clock_reads := Suc (clock_reads w)\<rparr>)"

definition now_iso :: "world \<Rightarrow> string \<times> world" where
  "now_iso w = (iso_string w (clock w (clock_reads w)), w\<lparr>clock_reads := Suc (clock_reads w)\<rparr>)"

definition random_suffix :: "world \<Rightarrow> string \<times> world" where
  "random_suffix w = (random36 w (random_draws w), w\<lparr>random_draws := Suc (random_draws w)\<rparr>)"

text \<open>A number in a template string: its decimal digits.\<close>

fun digits :: "nat \<Rightarrow> string" where
  "digits n = (if n < 10 then [char_of (48 + n)] else digits (n div 10) @ [char_of (48 + n mod 10)])"

declare digits.simps [simp del]

definition decimal :: "int \<Rightarrow> string" where
  "decimal i = (if i < 0 then CHR ''-'' # digits (nat (- i)) else digits (nat i))"

text \<open>\<^verbatim>\<open>new Date(a) - new Date(b)\<close>: None is NaN.\<close>

definition date_diff :: "world \<Rightarrow> jsval \<Rightarrow> jsval \<Rightarrow> int option" where
  "date_diff w a b =
     (case (date_value w a, date_value w b) of
        (Some x, Some y) \<Rightarrow> Some (x - y)
      | _ \<Rightarrow> None)"

text \<open>
  \<^verbatim>\<open>Array.prototype.sort\<close> with a comparator. The two comparators of this file subtract two
  dates. When no pair of elements of the array gives NaN, the comparator is consistent and
  the result is fixed by the language: the stable sort, in which \<open>x\<close> goes behind \<open>y\<close> when
  the comparator's result on \<open>(x, y)\<close> is positive. When some pair gives NaN (a date is
  invalid) the comparator is not consistent; the result is still the same elements, in an
  order that is the engine's own: the positions of the array in the order of their ranks
  under \<open>engine_order\<close>.
\<close>

fun positive :: "int option \<Rightarrow> bool" where
  "positive None = False"
| "positive (Some d) = (0 < d)"

fun insort_cmp :: "('a \<Rightarrow> 'a \<Rightarrow> int option) \<Rightarrow> 'a \<Rightarrow> 'a list \<Rightarrow> 'a list" where
  "insort_cmp c x [] = [x]"
| "insort_cmp c x (y # ys) = (if positive (c x y) then y # insort_cmp c x ys else x # y # ys)"

definition never_NaN :: "(jsval \<Rightarrow> jsval \<Rightarrow> int option) \<Rightarrow> jsval list \<Rightarrow> bool" where
  "never_NaN c xs = list_all (\<lambda>x. list_all (\<lambda>y. c x y \<noteq> None) xs) xs"

definition js_sort :: "world \<Rightarrow> (jsval \<Rightarrow> jsval \<Rightarrow> int option) \<Rightarrow> jsval list \<Rightarrow> jsval list" where
  "js_sort w c xs =
     (if never_NaN c xs then foldr (insort_cmp c) xs []
      else map snd (sort_key (\<lambda>p. engine_order w c xs (fst p)) (enumerate 0 xs)))"

text \<open>\<^verbatim>\<open>xs.slice(0, limit)\<close> for an integer limit: a negative one counts from the end.\<close>

definition slice0 :: "'a list \<Rightarrow> int \<Rightarrow> 'a list" where
  "slice0 xs limit = (if limit < 0 then take (nat (int (length xs) + limit)) xs else take (nat limit) xs)"

text \<open>\<^verbatim>\<open>xs.findIndex(p)\<close>: None is -1.\<close>

fun findIndex :: "('a \<Rightarrow> bool) \<Rightarrow> 'a list \<Rightarrow> nat option" where
  "findIndex p [] = None"
| "findIndex p (x # xs) = (if p x then Some 0 else map_option Suc (findIndex p xs))"

section \<open>MapStorage: saving, reading, deleting\<close>

text \<open>\<^verbatim>\<open>generateMapId\<close> (lines 86-91).\<close>

definition generateMapId :: "world \<Rightarrow> string \<times> world" where
  "generateMapId w =
     (let (timestamp, w1) = Date_now w;
          (random, w2) = random_suffix w1
      in (''map_'' @ decimal timestamp @ ''_'' @ random, w2))"

text \<open>The comparators of the two sorts: by \<^verbatim>\<open>created\<close> ascending, by \<^verbatim>\<open>modified\<close>
  descending.\<close>

definition by_created :: "world \<Rightarrow> jsval \<Rightarrow> jsval \<Rightarrow> int option" where
  "by_created w a b = date_diff w (getprop a ''created'') (getprop b ''created'')"

definition by_modified_desc :: "world \<Rightarrow> jsval \<Rightarrow> jsval \<Rightarrow> int option" where
  "by_modified_desc w a b = date_diff w (getprop b ''modified'') (getprop a ''modified'')"

text \<open>\<^verbatim>\<open>enforceMapLimit\<close> (lines 97-108) sorts and splices the array in place; the model
  returns the array as it is afterwards.\<close>

definition enforceMapLimit :: "world \<Rightarrow> jsval list \<Rightarrow> jsval list" where
  "enforceMapLimit w maps =
     (if length maps > MAX_MAPS
      then (let sorted = js_sort w (by_created w) maps;
                toRemove = length maps - MAX_MAPS
            in drop toRemove sorted)
      else maps)"

text \<open>\<^verbatim>\<open>getAllMaps\<close> (lines 118-132): no entry, an entry that does not parse and a parsed
  value that is not an array (\<^verbatim>\<open>maps.filter\<close> throws a TypeError, which is caught) all give
  the empty array.\<close>

definition getAllMaps :: "world \<Rightarrow> jsval list" where
  "getAllMaps w =
     (case items w STORAGE_KEY of
        None \<Rightarrow> []
      | Some data \<Rightarrow>
          (case JSON_parse data of
             Inl e \<Rightarrow> []
           | Inr (JArr maps) \<Rightarrow> filter validateMapData maps
           | Inr _ \<Rightarrow> []))"

text \<open>The records that lie in the store, valid or not: the stored array as it parses.\<close>

definition stored_records :: "world \<Rightarrow> jsval list" where
  "stored_records w =
     (case items w STORAGE_KEY of
        Some (Json v) \<Rightarrow> (case json_roundtrip v of JArr maps \<Rightarrow> maps | _ \<Rightarrow> [])
      | _ \<Rightarrow> [])"

text \<open>\<^verbatim>\<open>getMapById\<close> (lines 139-142).\<close>

definition getMapById :: "world \<Rightarrow> jsval \<Rightarrow> jsval" where
  "getMapById w mapId =
     (case find (\<lambda>m. strict_eq (getprop m ''id'') mapId) (getAllMaps w) of
        None \<Rightarrow> JNull
      | Some m \<Rightarrow> (if truthy m then m else JNull))"

text \<open>\<^verbatim>\<open>getRecentMaps\<close> (lines 149-155); the limit is 10 when the argument is left out.\<close>

definition getRecentMaps :: "world \<Rightarrow> int option \<Rightarrow> jsval list" where
  "getRecentMaps w limit =
     slice0 (js_sort w (by_modified_desc w) (getAllMaps w)) (case limit of None \<Rightarrow> 10 | Some l \<Rightarrow> l)"

text \<open>\<^verbatim>\<open>handleStorageQuotaExceeded\<close> (lines 435-454): a failure of its own write is caught
  and logged.\<close>

definition handleStorageQuotaExceeded :: "world \<Rightarrow> world" where
  "handleStorageQuotaExceeded w =
     (let maps = getAllMaps w
      in if length maps > 10
         then (let toRemove = length maps div 4;
                   sorted = js_sort w (by_created w) maps
               in snd (setItem w STORAGE_KEY (JArr (drop toRemove sorted))))
         else w)"

text \<open>
  \<^verbatim>\<open>saveMap\<close> (lines 31-80). \<open>stampMap\<close> is its first part, the three assignments to the
  caller's object: an id when it has none, the version, the time of modification.
  \<open>putMap\<close> is its second part (lines 47-61): the object replaces the record of the same
  id in the array read from the store, or is pushed at the end, and the limit is applied.
  \<open>saveMap\<close> then writes the array back. It returns the id, or the error it throws.
\<close>

definition stampMap :: "world \<Rightarrow> props \<Rightarrow> props \<times> world" where
  "stampMap w mapData =
     (let (m1, w1) = (if \<not> truthy (lookup mapData ''id'')
                      then (let (newId, w') = generateMapId w in (assign ''id'' (JStr newId) mapData, w'))
                      else (mapData, w));
          m2 = assign ''version'' (JStr VERSION) m1;
          (now, w2) = now_iso w1
      in (assign ''modified'' (JStr now) m2, w2))"

definition putMap :: "world \<Rightarrow> props \<Rightarrow> jsval list \<Rightarrow> jsval list" where
  "putMap w mapData existingMaps =
     (case findIndex (\<lambda>m. strict_eq (getprop m ''id'') (lookup mapData ''id'')) existingMaps of
        Some existingIndex \<Rightarrow> existingMaps[existingIndex := JObj mapData]
      | None \<Rightarrow> enforceMapLimit w (existingMaps @ [JObj mapData]))"

definition saveMap :: "world \<Rightarrow> props \<Rightarrow> (js_error + jsval) \<times> world" where
  "saveMap w mapData0 =
     (let (mapData, w1) = stampMap w mapData0;
          existingMaps = getAllMaps w1;
          maps = putMap w1 mapData existingMaps
      in case setItem w1 STORAGE_KEY (JArr maps) of
           (WriteOk, w2) \<Rightarrow> (Inr (lookup mapData ''id''), w2)
         | (WriteQuota, w2) \<Rightarrow>
             (Inl (Error ''Espace de stockage insuffisant. Supprimez quelques cartes anciennes.''),
              handleStorageQuotaExceeded w2)
         | (WriteFails, w2) \<Rightarrow> (Inl (Error ''Impossible de sauvegarder la carte''), w2))"

text \<open>
  A run of saves, one map after the other, whatever each save returns: the state at the
  end, and the objects as the saves stamped them, in the order of the saves.
\<close>

definition saveAll :: "world \<Rightarrow> props list \<Rightarrow> world" where
  "saveAll w ms = foldl (\<lambda>w' m. snd (saveMap w' m)) w ms"

fun stamped_all :: "world \<Rightarrow> props list \<Rightarrow> jsval list" where
  "stamped_all w [] = []"
| "stamped_all w (m # ms) = JObj (fst (stampMap w m)) # stamped_all (snd (saveMap w m)) ms"

text \<open>\<^verbatim>\<open>deleteMap\<close> (lines 166-187) and \<^verbatim>\<open>deleteAllMaps\<close> (lines 193-202). Both catch
  whatever the write throws and return false.\<close>

definition deleteMap :: "world \<Rightarrow> jsval \<Rightarrow> (js_error + bool) \<times> world" where
  "deleteMap w mapId =
     (let allMaps = getAllMaps w;
          initialCount = length allMaps;
          filteredMaps = filter (\<lambda>m. \<not> strict_eq (getprop m ''id'') mapId) allMaps
      in if length filteredMaps = initialCount then (Inr False, w)
         else (case setItem w STORAGE_KEY (JArr filteredMaps) of
                 (WriteOk, w') \<Rightarrow> (Inr True, w')
               | (_, w') \<Rightarrow> (Inr False, w')))"

definition deleteAllMaps :: "world \<Rightarrow> (js_error + bool) \<times> world" where
  "deleteAllMaps w =
     (case removeItem w STORAGE_KEY of
        (WriteOk, w') \<Rightarrow> (Inr True, w')
      | (_, w') \<Rightarrow> (Inr False, w'))"

section \<open>MapStorage: settings\<close>

text \<open>
  The own enumerable properties of a value, which a spread \<^verbatim>\<open>{...v}\<close> copies: those of an
  object, the indexed elements of an array, the indexed characters of a string, nothing
  for the rest. \<open>spread acc v\<close> is \<^verbatim>\<open>{...acc, ...v}\<close>.
\<close>

fun own_props :: "jsval \<Rightarrow> props" where
  "own_props (JObj ps) = ps"
| "own_props (JArr xs) = zip (map digits [0..<length xs]) xs"
| "own_props (JStr s) = zip (map digits [0..<length s]) (map (\<lambda>c. JStr [c]) s)"
| "own_props v = []"

definition spread :: "props \<Rightarrow> jsval \<Rightarrow> props" where
  "spread acc v = foldl (\<lambda>a p. assign (fst p) (snd p) a) acc (own_props v)"

text \<open>\<^verbatim>\<open>getDefaultSettings\<close> (lines 302-312); \<^verbatim>\<open>getSettings\<close> (lines 274-296) writes the same
  object out as its \<^verbatim>\<open>defaultSettings\<close>.\<close>

definition getDefaultSettings :: props where
  "getDefaultSettings =
     [(''theme'', JStr ''light''),
      (''defaultMapCenter'', JArr [JNum (Fin (46603354 / 1000000)), JNum (Fin (1888334 / 1000000))]),
      (''defaultZoom'', JNum (Fin 6)),
      (''defaultLayer'', JStr ''standard''),
      (''autoSave'', JBool True),
      (''showTooltips'', JBool True),
      (''language'', JStr ''fr'')]"

definition getSettings :: "world \<Rightarrow> props" where
  "getSettings w =
     (case items w SETTINGS_KEY of
        None \<Rightarrow> getDefaultSettings
      | Some data \<Rightarrow>
          (case JSON_parse data of
             Inl e \<Rightarrow> getDefaultSettings
           | Inr saved \<Rightarrow> spread getDefaultSettings saved))"

text \<open>\<^verbatim>\<open>saveSettings\<close> (lines 257-268): a failure of the write is caught and logged.\<close>

definition saveSettings :: "world \<Rightarrow> jsval \<Rightarrow> world" where
  "saveSettings w settings =
     (let currentSettings = getSettings w;
          updatedSettings = spread currentSettings settings
      in snd (setItem w SETTINGS_KEY (JObj updatedSettings)))"

section \<open>MapStorage: import\<close>

record import_result =
  imported :: nat
  skipped :: nat
  total :: nat

text \<open>The object that \<^verbatim>\<open>importMaps\<close> builds for a valid incoming map (lines 508-514): a copy
  with a generated id and two time stamps.\<close>

definition importedMap :: "world \<Rightarrow> jsval \<Rightarrow> props \<times> world" where
  "importedMap w m =
     (let (newId, w1) = generateMapId w;
          (imported_at, w2) = now_iso w1;
          (modified_at, w3) = now_iso w2
      in (assign ''modified'' (JStr modified_at)
            (assign ''imported'' (JStr imported_at)
              (assign ''id'' (JStr newId) (spread [] m))), w3))"

text \<open>The \<^verbatim>\<open>forEach\<close> over the incoming maps (lines 505-522), on the three variables it
  updates: \<^verbatim>\<open>existingMaps\<close>, \<^verbatim>\<open>importedCount\<close>, \<^verbatim>\<open>skippedCount\<close>.\<close>

fun import_each :: "world \<Rightarrow> jsval list \<Rightarrow> jsval list \<times> nat \<times> nat \<Rightarrow> (jsval list \<times> nat \<times> nat) \<times> world" where
  "import_each w [] acc = (acc, w)"
| "import_each w (m # ms) (existingMaps, importedCount, skippedCount) =
     (if validateMapData m
      then (let (copy, w') = importedMap w m
            in import_each w' ms (existingMaps @ [JObj copy], Suc importedCount, skippedCount))
      else import_each w ms (existingMaps, importedCount, Suc skippedCount))"

text \<open>\<^verbatim>\<open>Array.isArray\<close>.\<close>

fun isArray :: "jsval \<Rightarrow> bool" where
  "isArray (JArr xs) = True"
| "isArray v = False"

fun elements :: "jsval \<Rightarrow> jsval list" where
  "elements (JArr xs) = xs"
| "elements v = []"

text \<open>
  \<^verbatim>\<open>importMaps\<close> (lines 490-550). Every error is thrown on to the caller: the SyntaxError of
  \<^verbatim>\<open>JSON.parse\<close>, the TypeError of reading \<^verbatim>\<open>maps\<close> off null, the Error for a missing or
  non-array \<^verbatim>\<open>maps\<close>, the exception of the write.
\<close>

definition importMaps :: "world \<Rightarrow> jstext \<Rightarrow> bool \<Rightarrow> (js_error + import_result) \<times> world" where
  "importMaps w jsonData replace =
     (case JSON_parse jsonData of
        Inl e \<Rightarrow> (Inl e, w)
      | Inr importData \<Rightarrow>
          (if importData = JNull then (Inl TypeError, w)
           else if \<not> truthy (getprop importData ''maps'') \<or> \<not> isArray (getprop importData ''maps'')
           then (Inl (Error ''Format de fichier invalide''), w)
           else (let ((existingMaps, importedCount, skippedCount), w1) =
                       import_each w (elements (getprop importData ''maps''))
                         (if replace then [] else getAllMaps w, 0, 0);
                     limited = enforceMapLimit w1 existingMaps
                 in case setItem w1 STORAGE_KEY (JArr limited) of
                      (WriteOk, w2) \<Rightarrow>
                        (Inr \<lparr>imported = importedCount, skipped = skippedCount, total = length limited\<rparr>,
                         if truthy (getprop importData ''settings'') \<and> \<not> replace
                         then saveSettings w2 (JObj (spread (getSettings w2) (getprop importData ''settings'')))
                         else w2)
                    | (WriteQuota, w2) \<Rightarrow> (Inl QuotaExceededError, w2)
                    | (WriteFails, w2) \<Rightarrow> (Inl OtherDOMException, w2))))"



text \<open>The state after \<open>n\<close> such copies.\<close>

definition advance :: "world \<Rightarrow> nat \<Rightarrow> world" where
  "advance w n = w\<lparr>clock_reads := clock_reads w + 3 * n, random_draws := random_draws w + n\<rparr>"

section \<open>MapStorage: migration\<close>

text \<open>
  \<^verbatim>\<open>applyMigrations\<close> (lines 779-805) on the properties of a map. One turn of its loop over
  the markers: a marker with a falsy \<^verbatim>\<open>created\<close> gets the map's. Reading \<^verbatim>\<open>created\<close> off null
  throws a TypeError, and so does, in the strict mode of a class body, the assignment to a
  number, a string or a boolean; on an array the assignment makes a property that
  \<^verbatim>\<open>JSON.stringify\<close> does not write.
\<close>

fun migrate_marker :: "jsval \<Rightarrow> jsval \<Rightarrow> js_error + jsval" where
  "migrate_marker created (JObj ps) =
     Inr (if \<not> truthy (lookup ps ''created'') then JObj (assign ''created'' created ps) else JObj ps)"
| "migrate_marker created (JArr xs) = Inr (JArr xs)"
| "migrate_marker created v = Inl TypeError"

fun migrate_markers :: "jsval \<Rightarrow> jsval list \<Rightarrow> js_error + jsval list" where
  "migrate_markers created [] = Inr []"
| "migrate_markers created (m # ms) =
     (case migrate_marker created m of
        Inl e \<Rightarrow> Inl e
      | Inr m' \<Rightarrow> (case migrate_markers created ms of Inl e \<Rightarrow> Inl e | Inr ms' \<Rightarrow> Inr (m' # ms')))"

definition applyMigrations :: "world \<Rightarrow> props \<Rightarrow> (js_error + props) \<times> world" where
  "applyMigrations w mapData =
     (let (m1, w1) = (if \<not> truthy (lookup mapData ''created'')
                      then (let (now, w') = now_iso w in (assign ''created'' (JStr now) mapData, w'))
                      else (mapData, w));
          m2 = (if \<not> truthy (lookup m1 ''modified'') then assign ''modified'' (lookup m1 ''created'') m1 else m1);
          m3 = (if \<not> truthy (lookup m2 ''center'')
                then assign ''center'' (JArr [JNum (Fin (46603354 / 1000000)), JNum (Fin (1888334 / 1000000))]) m2
                else m2);
          m4 = (if \<not> truthy (lookup m3 ''zoom'') then assign ''zoom'' (JNum (Fin 6)) m3 else m3)
      in if truthy (lookup m4 ''markers'') \<and> isArray (lookup m4 ''markers'')
         then (case migrate_markers (lookup m4 ''created'') (elements (lookup m4 ''markers'')) of
                 Inl e \<Rightarrow> (Inl e, w1)
               | Inr markers \<Rightarrow> (Inr (assign ''markers'' (JArr markers) m4), w1))
         else (Inr m4, w1))"

text \<open>The \<^verbatim>\<open>forEach\<close> of \<^verbatim>\<open>migrateMaps\<close> (lines 751-758) on the array and the counter; an
  exception ends it. The maps come from \<^verbatim>\<open>getAllMaps\<close>, so each is an object.\<close>

fun migrate_each :: "world \<Rightarrow> jsval \<Rightarrow> jsval list \<Rightarrow> (js_error + jsval list \<times> nat) \<times> world" where
  "migrate_each w toVersion [] = (Inr ([], 0), w)"
| "migrate_each w toVersion (m # ms) =
     (if \<not> truthy (getprop m ''version'') \<or> \<not> strict_eq (getprop m ''version'') toVersion
      then (case applyMigrations w (own_props m) of
              (Inl e, w1) \<Rightarrow> (Inl e, w1)
            | (Inr migrated, w1) \<Rightarrow>
                (case migrate_each w1 toVersion ms of
                   (Inl e, w2) \<Rightarrow> (Inl e, w2)
                 | (Inr (ms', migratedCount), w2) \<Rightarrow>
                     (Inr (JObj (assign ''version'' toVersion migrated) # ms', Suc migratedCount), w2)))
      else (case migrate_each w toVersion ms of
              (Inl e, w2) \<Rightarrow> (Inl e, w2)
            | (Inr (ms', migratedCount), w2) \<Rightarrow> (Inr (m # ms', migratedCount), w2)))"

text \<open>\<^verbatim>\<open>migrateMaps\<close> (lines 744-771); it returns the pair (migrated, total). Its first
  argument, the version migrated from, is not used by the code.\<close>

definition migrateMaps :: "world \<Rightarrow> jsval \<Rightarrow> jsval \<Rightarrow> (js_error + nat \<times> nat) \<times> world" where
  "migrateMaps w fromVersion toVersion =
     (let maps = getAllMaps w
      in case migrate_each w toVersion maps of
           (Inl e, w1) \<Rightarrow> (Inl e, w1)
         | (Inr (maps', migratedCount), w1) \<Rightarrow>
             (if migratedCount > 0
              then (case setItem w1 STORAGE_KEY (JArr maps') of
                      (WriteOk, w2) \<Rightarrow> (Inr (migratedCount, length maps), w2)
                    | (WriteQuota, w2) \<Rightarrow> (Inl QuotaExceededError, w2)
                    | (WriteFails, w2) \<Rightarrow> (Inl OtherDOMException, w2))
              else (Inr (migratedCount, length maps), w1)))"

section \<open>The list page: renaming a map\<close>

text \<open>
  The static members that the class \<^verbatim>\<open>MapStorage\<close> declares (map-storage.js, lines 11-866),
  in the order of the file. No other file of the repository adds a member to the class.
\<close>

definition MapStorage_members :: "string list" where
  "MapStorage_members =
     [''STORAGE_KEY'', ''SETTINGS_KEY'', ''MAX_MAPS'', ''VERSION'',
      ''saveMap'', ''generateMapId'', ''enforceMapLimit'',
      ''getAllMaps'', ''getMapById'', ''getRecentMaps'',
      ''deleteMap'', ''deleteAllMaps'',
      ''validateMapData'', ''validateMarkerData'',
      ''saveSettings'', ''getSettings'', ''getDefaultSettings'',
      ''getStorageStats'', ''cleanupStorage'', ''handleStorageQuotaExceeded'',
      ''exportAllMaps'', ''importMaps'',
      ''searchMaps'', ''filterMapsByDate'', ''groupMapsByMonth'',
      ''debugReport'', ''checkDataIntegrity'', ''getStorageInfo'',
      ''migrateMaps'', ''applyMigrations'',
      ''isStorageAvailable'', ''runDiagnostics'']"

text \<open>\<^verbatim>\<open>xs.find(p)\<close> followed by an assignment to the title of what was found.\<close>

fun retitle_first :: "jsval \<Rightarrow> jsval \<Rightarrow> jsval list \<Rightarrow> jsval list" where
  "retitle_first mapId newName [] = []"
| "retitle_first mapId newName (m # ms) =
     (if strict_eq (getprop m ''id'') mapId
      then (if truthy m then JObj (assign ''title'' newName (own_props m)) else m) # ms
      else m # retitle_first mapId newName ms)"

text \<open>
  \<^verbatim>\<open>executeMapRename\<close> of the list page (lines 508-513 of its script), on the page's
  \<^verbatim>\<open>allMaps\<close>. Its first statement calls \<^verbatim>\<open>MapStorage.renameMap\<close>: where the class has no such
  member the value called is undefined and the call throws a TypeError, which nothing on
  the way catches. The rest of the function changes the title in \<^verbatim>\<open>allMaps\<close>.
\<close>

definition executeMapRename :: "jsval list \<Rightarrow> jsval \<Rightarrow> jsval \<Rightarrow> js_error + jsval list" where
  "executeMapRename allMaps mapId newName =
     (if ''renameMap'' \<in> set MapStorage_members
      then Inr (retitle_first mapId newName allMaps)
      else Inl TypeError)"

text \<open>The time of creation of a record, as the sorts read it: None when the date is
  invalid.\<close>

definition created_time :: "world \<Rightarrow> jsval \<Rightarrow> int option" where
  "created_time w r = date_value w (getprop r ''created'')"

section \<open>Example data\<close>

text \<open>
  Example maps, numbered: map \<open>i\<close> (below 60) was created at minute \<open>i\<close> of the first hour
  of 2024, whose first instant is 1704067200000 ms after the epoch. \<open>example_date_value\<close>
  is \<^verbatim>\<open>new Date\<close> on the timestamps of that hour that name a full minute, \<open>example_iso\<close> is \<^verbatim>\<open>toISOString\<close> on the instants
  of the first second of the next hour, where the example clock stands.
\<close>

definition two_digits :: "nat \<Rightarrow> string" where
  "two_digits i = [char_of (48 + i div 10), char_of (48 + i mod 10)]"

definition example_created :: "nat \<Rightarrow> string" where
  "example_created i = ''2024-01-01T00:'' @ two_digits i @ '':00.000Z''"

definition example_time :: "nat \<Rightarrow> int" where
  "example_time i = 1704067200000 + 60000 * int i"

definition digit_value :: "char \<Rightarrow> nat option" where
  "digit_value c = (if 48 \<le> (of_char c :: nat) \<and> (of_char c :: nat) < 58 then Some (of_char c - 48) else None)"

definition example_date_value :: "jsval \<Rightarrow> int option" where
  "example_date_value v =
     (case v of
        JStr s \<Rightarrow>
          (if length s = 24 \<and> take 14 s = ''2024-01-01T00:'' \<and> drop 16 s = '':00.000Z''
           then (case (digit_value (s ! 14), digit_value (s ! 15)) of
                   (Some a, Some b) \<Rightarrow> (if a < 6 then Some (example_time (10 * a + b)) else None)
                 | _ \<Rightarrow> None)
           else None)
      | _ \<Rightarrow> None)"

definition example_iso :: "int \<Rightarrow> string" where
  "example_iso t =
     (let ms = nat (t - example_time 60)
      in ''2024-01-01T01:00:00.'' @ [char_of (48 + ms div 100)] @ two_digits (ms mod 100) @ ''Z'')"

definition example_props :: "nat \<Rightarrow> props" where
  "example_props i =
     [(''id'', JStr (''carte-'' @ digits i)),
      (''title'', JStr (''Carte '' @ digits i)),
      (''created'', JStr (example_created i)),
      (''modified'', JStr (example_created i))]"

definition example_map :: "nat \<Rightarrow> jsval" where
  "example_map i = JObj (example_props i)"

text \<open>A record without a title: not a valid map.\<close>

definition untitled_map :: jsval where
  "untitled_map =
     JObj [(''id'', JStr ''carte-7''),
           (''created'', JStr (example_created 7)),
           (''modified'', JStr (example_created 7))]"

text \<open>The world whose store holds the given records, and whose writes end as \<open>wr\<close> says.
  Its engine leaves an array as it is when the comparator is not consistent.\<close>

definition example_world :: "jsval list \<Rightarrow> (nat \<Rightarrow> write_result) \<Rightarrow> world" where
  "example_world records wr =
     \<lparr>items = [STORAGE_KEY \<mapsto> Json (JArr records)],
      write_results = wr,
      writes = 0,
      clock = (\<lambda>n. example_time 60 + int n),
      clock_reads = 0,
      random36 = (\<lambda>n. ''k3x9'' @ digits n),
      random_draws = 0,
      date_value = example_date_value,
      iso_string = example_iso,
      engine_order = (\<lambda>c xs i. int i)\<rparr>"

text \<open>A map as the editor makes it before its first save: no id yet.\<close>

definition new_map :: "nat \<Rightarrow> props" where
  "new_map i =
     [(''id'', JNull),
      (''title'', JStr ''Nouvelle carte''),
      (''center'', JArr [JNum (Fin (46603354 / 1000000)), JNum (Fin (1888334 / 1000000))]),
      (''zoom'', JNum (Fin 6)),
      (''layer'', JStr ''standard''),
      (''markers'', JArr []),
      (''created'', JStr (example_created i)),
      (''modified'', JStr (example_created i))]"

text \<open>Writes that all succeed, that all fail, and a store that is full at the first write
  only.\<close>

definition always_ok :: "nat \<Rightarrow> write_result" where
  "always_ok n = WriteOk"

definition always_failing :: "nat \<Rightarrow> write_result" where
  "always_failing n = WriteFails"

definition quota_once :: "nat \<Rightarrow> write_result" where
  "quota_once n = (if n = 0 then WriteQuota else WriteOk)"


definition world_of_8 :: world where
  "world_of_8 = example_world (map example_map (rev [0..<8])) quota_once"

text \<open>A store of two maps that refuses every write, and a store that holds a valid record
  and an invalid one.\<close>

definition readonly_world :: world where
  "readonly_world = example_world [example_map 1, example_map 2] always_failing"

definition world_with_invalid_record :: world where
  "world_with_invalid_record = example_world [example_map 1, untitled_map] always_ok"

text \<open>A map saved by an older version, with the whole world in view: zoom level 0.\<close>

definition old_map :: jsval where
  "old_map =
     JObj [(''id'', JStr ''carte-3''),
           (''title'', JStr ''Monde''),
           (''center'', JArr [JNum (Fin 0), JNum (Fin 0)]),
           (''zoom'', JNum (Fin 0)),
           (''created'', JStr (example_created 3)),
           (''modified'', JStr (example_created 3)),
           (''version'', JStr ''0.9.0'')]"

definition world_with_old_map :: world where
  "world_with_old_map = example_world [old_map] always_ok"

text \<open>A store of three maps whose writes succeed, and one of 49, the newest first.\<close>

definition world_of_3 :: world where
  "world_of_3 = example_world (map example_map [0..<3]) always_ok"





text \<open>A store of two maps, made at minutes 55 and 56, whose writes succeed; and 51 maps to
  save into it, made at minutes 0 to 50.\<close>

definition world_of_2 :: world where
  "world_of_2 = example_world (map example_map [55, 56]) always_ok"

definition fifty_one_maps :: "props list" where
  "fifty_one_maps = map example_props [0..<51]"

section \<open>Properties of the validators\<close>

lemma validateMarkerData_JObj:
  "validateMarkerData (JObj ps) =
     (lookup ps ''id'' \<noteq> JUndefined \<and>
      (\<exists>s. lookup ps ''titre'' = JStr s \<and> s \<noteq> []) \<and>
      (\<exists>n. lookup ps ''lat'' = JNum n \<and> n \<noteq> NaN) \<and>
      (\<exists>n. lookup ps ''lon'' = JNum n \<and> n \<noteq> NaN) \<and>
      truthy (lookup ps ''couleur'') \<and> truthy (lookup ps ''icone''))"
proof -
  have ty_undef: "\<And>v. (typeof v = TUndefined) = (v = JUndefined)"
    by (case_tac v) simp_all
  have ty_str: "\<And>v. (truthy v \<and> typeof v = TString) = (\<exists>s. v = JStr s \<and> s \<noteq> [])"
    by (case_tac v) auto
  have ty_num: "\<And>v. (typeof v = TNumber \<and> \<not> isNaN v) = (\<exists>n. v = JNum n \<and> n \<noteq> NaN)"
    subgoal for v
      by (cases v; simp) (case_tac x4; simp)
    done
  show ?thesis
    unfolding validateMarkerData_def
    using ty_undef [of "lookup ps ''id''"] ty_str [of "lookup ps ''titre''"]
      ty_num [of "lookup ps ''lat''"] ty_num [of "lookup ps ''lon''"]
    by (simp; blast)
qed

text \<open>
  C1. The claim: the marker validator returns true only when lat is a finite number in
  [-90, 90] and lon a finite number in [-180, 180], so that the example marker with
  lat 100 is rejected. \<^verbatim>\<open>MapStorage.validateMarkerData\<close> checks only that lat and lon are
  numbers other than NaN: on the example marker with latitude 100 and longitude 0 it
  returns true. (The editor's own form validation in map-editor.js does check the two
  ranges.)
\<close>

theorem validateMarkerData_accepts_latitude_100:
  "validateMarkerData (example_marker 100 0) = True"
  by (simp add: validateMarkerData_def example_marker_def lookup_def)

theorem validateMarkerData_accepts_latitude_100_witness:
  "validateMarkerData (example_marker 100 0) \<and> \<not> (100::real) \<le> 90 \<and>
   getprop (example_marker 100 0) ''lat'' = JNum (Fin 100)"
  using validateMarkerData_accepts_latitude_100
  by (simp add: example_marker_def lookup_def)

section \<open>Basic facts\<close>

lemma json_roundtrip_not_undefined [simp]: "json_roundtrip v \<noteq> JUndefined"
  by (induction v rule: json_roundtrip.induct) simp_all

lemma json_roundtrip_idem [simp]: "json_roundtrip (json_roundtrip v) = json_roundtrip v"
proof (induction v rule: json_roundtrip.induct)
  case (10 ps)
  have "map (\<lambda>p. (fst p, json_roundtrip (snd p)))
          (filter (\<lambda>p. snd p \<noteq> JUndefined)
            (map (\<lambda>p. (fst p, json_roundtrip (snd p))) (filter (\<lambda>p. snd p \<noteq> JUndefined) ps)))
        = map (\<lambda>p. (fst p, json_roundtrip (snd p))) (filter (\<lambda>p. snd p \<noteq> JUndefined) ps)"
    using 10 by (induction ps) auto
  then show ?case by simp
qed simp_all

lemma getAllMaps_stored: "getAllMaps w = filter validateMapData (stored_records w)"
  unfolding getAllMaps_def stored_records_def
  by (simp split: option.split jstext.split jsval.split)

lemma stored_records_parsed:
  "stored_records w = [] \<or> (\<exists>v. json_roundtrip v = JArr (stored_records w))"
  unfolding stored_records_def
  by (auto split: option.split jstext.split jsval.split)

lemma map_fixed: "map f xs = xs \<Longrightarrow> x \<in> set xs \<Longrightarrow> f x = x"
  by (induction xs) auto

lemma stored_records_stable: "m \<in> set (stored_records w) \<Longrightarrow> json_roundtrip m = m"
proof -
  assume a: "m \<in> set (stored_records w)"
  then obtain v where "json_roundtrip v = JArr (stored_records w)"
    using stored_records_parsed [of w] by auto
  then have "json_roundtrip (JArr (stored_records w)) = JArr (stored_records w)"
    using json_roundtrip_idem [of v] by simp
  then have "map json_roundtrip (stored_records w) = stored_records w"
    by simp
  then show ?thesis
    using a by (rule map_fixed)
qed

lemma getAllMaps_stable: "m \<in> set (getAllMaps w) \<Longrightarrow> json_roundtrip m = m"
  by (auto simp add: getAllMaps_stored stored_records_stable)

lemma set_insort_cmp [simp]: "set (insort_cmp c x xs) = insert x (set xs)"
  by (induction xs) auto

lemma mset_foldr_insort_cmp: "mset (foldr (insort_cmp c) xs []) = mset xs"
proof (induction xs)
  case Nil
  then show ?case by simp
next
  case (Cons x xs)
  have "\<And>ys. mset (insort_cmp c x ys) = add_mset x (mset ys)"
    subgoal for ys by (induction ys) simp_all
    done
  then show ?case using Cons by simp
qed

lemma mset_js_sort [simp]: "mset (js_sort w c xs) = mset xs"
proof (cases "never_NaN c xs")
  case True
  then show ?thesis by (simp add: js_sort_def mset_foldr_insort_cmp)
next
  case False
  have "mset (map snd (sort_key (\<lambda>p. engine_order w c xs (fst p)) (enumerate 0 xs)))
          = mset (map snd (enumerate 0 xs))"
    by (simp only: mset_map mset_sort)
  then show ?thesis using False by (simp add: js_sort_def)
qed

lemma set_js_sort [simp]: "set (js_sort w c xs) = set xs"
  using mset_js_sort [of w c xs] by (metis set_mset_mset)

lemma length_insort_cmp [simp]: "length (insort_cmp c x xs) = Suc (length xs)"
  by (induction xs) auto

lemma length_js_sort [simp]: "length (js_sort w c xs) = length xs"
  using mset_js_sort [of w c xs] by (metis size_mset)

lemma getAllMaps_valid: "m \<in> set (getAllMaps w) \<Longrightarrow> validateMapData m"
  by (simp add: getAllMaps_stored)

lemma set_slice0: "set (slice0 xs l) \<subseteq> set xs"
  unfolding slice0_def by (auto dest: in_set_takeD)


lemma stampMap_frame [simp]:
  "items (snd (stampMap w m)) = items w"
  "writes (snd (stampMap w m)) = writes w"
  "write_results (snd (stampMap w m)) = write_results w"
  "date_value (snd (stampMap w m)) = date_value w"
  "iso_string (snd (stampMap w m)) = iso_string w"
  "clock (snd (stampMap w m)) = clock w"
  "random36 (snd (stampMap w m)) = random36 w"
  "engine_order (snd (stampMap w m)) = engine_order w"
  unfolding stampMap_def generateMapId_def Date_now_def now_iso_def random_suffix_def
  by (simp_all add: Let_def split_def)

lemma getAllMaps_cong: "items w' = items w \<Longrightarrow> getAllMaps w' = getAllMaps w"
  unfolding getAllMaps_def by simp

lemma stored_records_cong: "items w' = items w \<Longrightarrow> stored_records w' = stored_records w"
  unfolding stored_records_def by simp

lemma by_created_cong: "date_value w' = date_value w \<Longrightarrow> by_created w' = by_created w"
  unfolding by_created_def date_diff_def by (intro ext) simp

lemma js_sort_cong: "engine_order w' = engine_order w \<Longrightarrow> js_sort w' = js_sort w"
  by (intro ext) (simp add: js_sort_def)

lemma setItem_fst [simp]: "fst (setItem w k v) = write_results w (writes w)"
  unfolding setItem_def by (simp add: Let_def)

lemma setItem_frame [simp]:
  "writes (snd (setItem w k v)) = Suc (writes w)"
  "write_results (snd (setItem w k v)) = write_results w"
  "date_value (snd (setItem w k v)) = date_value w"
  "iso_string (snd (setItem w k v)) = iso_string w"
  "clock (snd (setItem w k v)) = clock w"
  "clock_reads (snd (setItem w k v)) = clock_reads w"
  "random36 (snd (setItem w k v)) = random36 w"
  "random_draws (snd (setItem w k v)) = random_draws w"
  "engine_order (snd (setItem w k v)) = engine_order w"
  unfolding setItem_def by (simp_all add: Let_def)

lemma setItem_items:
  "items (snd (setItem w k v)) =
     (if write_results w (writes w) = WriteOk then (items w)(k \<mapsto> Json v) else items w)"
  unfolding setItem_def by (simp add: Let_def)

lemma removeItem_fst [simp]: "fst (removeItem w k) = write_results w (writes w)"
  unfolding removeItem_def by (simp add: Let_def)

lemma removeItem_items:
  "items (snd (removeItem w k)) =
     (if write_results w (writes w) = WriteOk then (items w)(k := None) else items w)"
  unfolding removeItem_def by (simp add: Let_def)

lemma getAllMaps_written:
  "items w' = (items w)(STORAGE_KEY \<mapsto> Json (JArr xs)) \<Longrightarrow>
   getAllMaps w' = filter validateMapData (map json_roundtrip xs)"
  unfolding getAllMaps_def by simp

lemma stored_records_written:
  "items w' = (items w)(STORAGE_KEY \<mapsto> Json (JArr xs)) \<Longrightarrow>
   stored_records w' = map json_roundtrip xs"
  unfolding stored_records_def by simp



lemma saveMap_write_fails:
  assumes "write_results w (writes w) \<noteq> WriteOk"
  shows "\<exists>msg. fst (saveMap w m) = Inl (Error msg)"
  using assms unfolding saveMap_def
  by (cases "write_results w (writes w)") (simp_all add: Let_def split_def prod.case_eq_if)

lemma deleteMap_write_fails:
  assumes "write_results w (writes w) \<noteq> WriteOk"
  shows "fst (deleteMap w mapId) = Inr False \<and> items (snd (deleteMap w mapId)) = items w"
  using assms unfolding deleteMap_def
  by (cases "write_results w (writes w)") (simp_all add: Let_def split_def prod.case_eq_if setItem_def)

lemma deleteAllMaps_write_fails:
  assumes "write_results w (writes w) \<noteq> WriteOk"
  shows "fst (deleteAllMaps w) = Inr False \<and> items (snd (deleteAllMaps w)) = items w"
  using assms unfolding deleteAllMaps_def
  by (cases "write_results w (writes w)") (simp_all add: Let_def split_def prod.case_eq_if removeItem_def)

section \<open>Facts about the example data\<close>

lemma example_created_nonempty [simp]: "example_created i \<noteq> []"
  by (simp add: example_created_def)

lemma example_map_valid: "validateMapData (example_map i)"
  by (simp add: validateMapData_def example_map_def example_props_def lookup_def)

lemma example_map_stable: "json_roundtrip (example_map i) = example_map i"
  by (simp add: example_map_def example_props_def)

lemma getAllMaps_example_world:
  "getAllMaps (example_world (map example_map ns) wr) = map example_map ns"
proof -
  have "filter validateMapData (map json_roundtrip (map example_map ns)) = map example_map ns"
    by (induction ns) (simp_all add: example_map_valid example_map_stable)
  then show ?thesis
    by (simp add: getAllMaps_def example_world_def)
qed

lemma digit_value_char: "d < 10 \<Longrightarrow> digit_value (char_of (48 + d)) = Some d"
  by (simp add: digit_value_def)

lemma example_date_value_created:
  "i < 60 \<Longrightarrow> example_date_value (JStr (example_created i)) = Some (example_time i)"
proof -
  assume i: "i < 60"
  then have a: "i div 10 < 10" "i mod 10 < 10" "i div 10 < 6" by auto
  show ?thesis
    using a digit_value_char [of "i div 10"] digit_value_char [of "i mod 10"]
    by (simp add: example_date_value_def example_created_def two_digits_def)
qed

section \<open>Sorting by date of creation\<close>

lemma positive_by_created:
  "created_time w a \<noteq> None \<Longrightarrow> created_time w b \<noteq> None \<Longrightarrow>
   positive (by_created w a b) = (\<not> the (created_time w a) \<le> the (created_time w b))"
  unfolding by_created_def date_diff_def created_time_def by auto

lemma insort_cmp_by_created:
  "created_time w x \<noteq> None \<Longrightarrow> \<forall>y\<in>set ys. created_time w y \<noteq> None \<Longrightarrow>
   insort_cmp (by_created w) x ys = insort_key (\<lambda>r. the (created_time w r)) x ys"
  by (induction ys) (simp_all add: positive_by_created)

lemma never_NaN_by_created:
  "\<forall>r\<in>set rs. created_time w r \<noteq> None \<Longrightarrow> never_NaN (by_created w) rs"
  unfolding never_NaN_def list_all_iff by_created_def date_diff_def created_time_def
  by (auto split: option.splits)

lemma set_foldr_insort_cmp: "set (foldr (insort_cmp c) xs []) = set xs"
  using mset_foldr_insort_cmp [of c xs] by (metis set_mset_mset)

lemma foldr_insort_cmp_by_created:
  "\<forall>r\<in>set rs. created_time w r \<noteq> None \<Longrightarrow>
   foldr (insort_cmp (by_created w)) rs [] = sort_key (\<lambda>r. the (created_time w r)) rs"
proof (induction rs)
  case Nil
  then show ?case by simp
next
  case (Cons r rs)
  then have "foldr (insort_cmp (by_created w)) rs [] = sort_key (\<lambda>r. the (created_time w r)) rs"
    by simp
  moreover have "\<forall>y\<in>set (foldr (insort_cmp (by_created w)) rs []). created_time w y \<noteq> None"
    using Cons.prems by (simp add: set_foldr_insort_cmp)
  ultimately show ?case
    using Cons.prems insort_cmp_by_created [of w r "foldr (insort_cmp (by_created w)) rs []"]
    by simp
qed

lemma js_sort_by_created:
  "\<forall>r\<in>set rs. created_time w r \<noteq> None \<Longrightarrow>
   js_sort w (by_created w) rs = sort_key (\<lambda>r. the (created_time w r)) rs"
  by (simp add: js_sort_def never_NaN_by_created foldr_insort_cmp_by_created)


lemma js_sort_single [simp]: "js_sort w c [x] = [x]"
  by (simp add: js_sort_def)

lemma filter_all: "\<forall>x\<in>set xs. P x \<Longrightarrow> filter P xs = xs"
  by (induction xs) auto

lemma map_all_fixed: "\<forall>x\<in>set xs. f x = x \<Longrightarrow> map f xs = xs"
  by (induction xs) auto

lemma reread_valid_stable:
  assumes "\<forall>x\<in>set xs. validateMapData x \<and> json_roundtrip x = x"
  shows "filter validateMapData (map json_roundtrip xs) = xs"
  using assms by (induction xs) auto

lemma enforceMapLimit_cong:
  "date_value w' = date_value w \<Longrightarrow> engine_order w' = engine_order w \<Longrightarrow>
   enforceMapLimit w' = enforceMapLimit w"
  by (intro ext) (simp add: enforceMapLimit_def by_created_cong [of w' w] js_sort_cong [of w' w])

lemma putMap_cong:
  "date_value w' = date_value w \<Longrightarrow> engine_order w' = engine_order w \<Longrightarrow> putMap w' = putMap w"
  by (intro ext) (simp add: putMap_def enforceMapLimit_cong [of w' w] cong: option.case_cong)

lemma saveMap_unfold:
  "saveMap w m =
    (case write_results w (writes w) of
       WriteOk \<Rightarrow> (Inr (lookup (fst (stampMap w m)) ''id''),
          snd (setItem (snd (stampMap w m)) STORAGE_KEY (JArr (putMap w (fst (stampMap w m)) (getAllMaps w)))))
     | WriteQuota \<Rightarrow> (Inl (Error ''Espace de stockage insuffisant. Supprimez quelques cartes anciennes.''),
          handleStorageQuotaExceeded
            (snd (setItem (snd (stampMap w m)) STORAGE_KEY (JArr (putMap w (fst (stampMap w m)) (getAllMaps w))))))
     | WriteFails \<Rightarrow> (Inl (Error ''Impossible de sauvegarder la carte''),
          snd (setItem (snd (stampMap w m)) STORAGE_KEY (JArr (putMap w (fst (stampMap w m)) (getAllMaps w))))))"
proof -
  have g: "getAllMaps (snd (stampMap w m)) = getAllMaps w"
    by (rule getAllMaps_cong) simp
  have e: "putMap (snd (stampMap w m)) = putMap w"
    by (rule putMap_cong) simp_all
  show ?thesis
    unfolding saveMap_def
    by (cases "write_results w (writes w)") (simp_all add: Let_def split_def prod.case_eq_if g e)
qed

section \<open>A save that runs into the quota\<close>



lemma created_time_example_map:
  "i < 60 \<Longrightarrow> created_time (example_world rs wr) (example_map i) = Some (example_time i)"
  by (simp add: created_time_def example_world_def example_map_def example_props_def lookup_def
      example_date_value_created)





lemma digits_examples: "digits (Suc 0) = ''1''" "digits 1 = ''1''" "digits 2 = ''2''" "digits 7 = ''7''"
  by code_simp+

section \<open>Write failures\<close>

text \<open>
  C3 (as amended). When the next write to the store fails, \<^verbatim>\<open>saveMap\<close> throws an Error to
  its caller; \<^verbatim>\<open>deleteMap\<close> and \<^verbatim>\<open>deleteAllMaps\<close> throw nothing: they return false, and the
  store is as it was.
\<close>

theorem write_failure_outcomes:
  assumes "write_results w (writes w) \<noteq> WriteOk"
  shows "(\<exists>msg. fst (saveMap w m) = Inl (Error msg)) \<and>
         fst (deleteMap w mapId) = Inr False \<and> items (snd (deleteMap w mapId)) = items w \<and>
         fst (deleteAllMaps w) = Inr False \<and> items (snd (deleteAllMaps w)) = items w"
  using saveMap_write_fails [OF assms] deleteMap_write_fails [OF assms] deleteAllMaps_write_fails [OF assms]
  by simp

lemma getAllMaps_readonly_world: "getAllMaps readonly_world = [example_map 1, example_map 2]"
  using getAllMaps_example_world [of "[1, 2]" always_failing]
  by (simp add: readonly_world_def)

lemma readonly_world_fails: "write_results readonly_world (writes readonly_world) = WriteFails"
  by (simp add: readonly_world_def example_world_def always_failing_def)

theorem write_failure_outcomes_witness:
  "write_results readonly_world (writes readonly_world) \<noteq> WriteOk \<and>
   fst (saveMap readonly_world (new_map 30)) = Inl (Error ''Impossible de sauvegarder la carte'') \<and>
   fst (deleteMap readonly_world (JStr ''carte-1'')) = Inr False \<and>
   getAllMaps (snd (deleteMap readonly_world (JStr ''carte-1''))) = [example_map 1, example_map 2] \<and>
   fst (deleteAllMaps readonly_world) = Inr False \<and>
   getAllMaps (snd (deleteAllMaps readonly_world)) = [example_map 1, example_map 2]"
proof -
  have f: "write_results readonly_world (writes readonly_world) \<noteq> WriteOk"
    by (simp add: readonly_world_fails)
  have s: "fst (saveMap readonly_world (new_map 30)) = Inl (Error ''Impossible de sauvegarder la carte'')"
    by (simp add: saveMap_unfold readonly_world_fails)
  have d: "getAllMaps (snd (deleteMap readonly_world (JStr ''carte-1''))) = getAllMaps readonly_world"
    "getAllMaps (snd (deleteAllMaps readonly_world)) = getAllMaps readonly_world"
    using write_failure_outcomes [OF f, of "new_map 30" "JStr ''carte-1''"]
    by (auto intro: getAllMaps_cong)
  show ?thesis
    using write_failure_outcomes [OF f, of "new_map 30" "JStr ''carte-1''"] f s d
    by (simp add: getAllMaps_readonly_world)
qed

text \<open>Against the claim as stated (every write failure reaches the caller as an error):
  the store holds the map carte-1, the write that would delete it fails, and \<^verbatim>\<open>deleteMap\<close>
  returns false as it does for an id that is not there; nothing is thrown.\<close>

theorem deleteMap_swallows_write_failure:
  "getMapById readonly_world (JStr ''carte-1'') = example_map 1 \<and>
   write_results readonly_world (writes readonly_world) = WriteFails \<and>
   fst (deleteMap readonly_world (JStr ''carte-1'')) = Inr False \<and>
   fst (deleteMap readonly_world (JStr ''no-such-id'')) = Inr False \<and>
   fst (deleteAllMaps readonly_world) = Inr False"
proof -
  have g: "getMapById readonly_world (JStr ''carte-1'') = example_map 1"
    by (simp add: getMapById_def getAllMaps_readonly_world)
      (simp add: example_map_def example_props_def lookup_def digits_examples)
  show ?thesis
    using deleteMap_write_fails [of readonly_world] deleteAllMaps_write_fails [of readonly_world]
    by (simp add: g readonly_world_fails)
qed

section \<open>What the read operations return\<close>

lemma getMapById_cases:
  "getMapById w mapId = JNull \<or>
   (getMapById w mapId \<in> set (getAllMaps w) \<and> strict_eq (getprop (getMapById w mapId) ''id'') mapId)"
proof (cases "find (\<lambda>m. strict_eq (getprop m ''id'') mapId) (getAllMaps w)")
  case None
  then show ?thesis by (simp add: getMapById_def)
next
  case (Some m)
  then have "m \<in> set (getAllMaps w)" "strict_eq (getprop m ''id'') mapId"
    by (auto simp: find_Some_iff)
  then show ?thesis using Some by (simp add: getMapById_def)
qed

lemma getMapById_no_valid_record:
  assumes "\<forall>m\<in>set (stored_records w). strict_eq (getprop m ''id'') mapId \<longrightarrow> \<not> validateMapData m"
  shows "getMapById w mapId = JNull"
  using getMapById_cases [of w mapId] assms
  by (auto simp: getAllMaps_stored)

text \<open>
  C10. Every record that \<^verbatim>\<open>getAllMaps\<close>, \<^verbatim>\<open>getRecentMaps\<close> or \<^verbatim>\<open>getMapById\<close> returns passes
  \<^verbatim>\<open>validateMapData\<close>, and \<^verbatim>\<open>getMapById\<close> returns null when every stored record of that id
  (there may be none) fails the validation. The three operations only read: the invalid
  record stays in the store.
\<close>

theorem reads_return_valid_maps_only:
  "(\<forall>m\<in>set (getAllMaps w). validateMapData m) \<and>
   (\<forall>m\<in>set (getRecentMaps w limit). validateMapData m) \<and>
   (getMapById w mapId = JNull \<or> validateMapData (getMapById w mapId)) \<and>
   ((\<forall>m\<in>set (stored_records w). strict_eq (getprop m ''id'') mapId \<longrightarrow> \<not> validateMapData m)
      \<longrightarrow> getMapById w mapId = JNull)"
proof -
  have "\<forall>m\<in>set (getRecentMaps w limit). validateMapData m"
    using set_slice0 [of "js_sort w (by_modified_desc w) (getAllMaps w)" "case limit of None \<Rightarrow> 10 | Some l \<Rightarrow> l"]
    by (auto simp: getRecentMaps_def getAllMaps_valid)
  then show ?thesis
    using getMapById_cases [of w mapId] getMapById_no_valid_record [of w mapId]
    by (auto simp: getAllMaps_valid)
qed

theorem reads_return_valid_maps_only_witness:
  "stored_records world_with_invalid_record = [example_map 1, untitled_map] \<and>
   \<not> validateMapData untitled_map \<and>
   getprop untitled_map ''id'' = JStr ''carte-7'' \<and>
   getAllMaps world_with_invalid_record = [example_map 1] \<and>
   getRecentMaps world_with_invalid_record None = [example_map 1] \<and>
   getMapById world_with_invalid_record (JStr ''carte-7'') = JNull \<and>
   getMapById world_with_invalid_record (JStr ''carte-1'') = example_map 1 \<and>
   validateMapData (example_map 1)"
proof -
  let ?w = world_with_invalid_record
  have u: "\<not> validateMapData untitled_map" "getprop untitled_map ''id'' = JStr ''carte-7''"
    by (simp_all add: validateMapData_def untitled_map_def lookup_def)
  have s: "stored_records ?w = [example_map 1, untitled_map]"
    by (simp add: stored_records_def world_with_invalid_record_def example_world_def
        example_map_stable) (simp add: untitled_map_def)
  have a: "getAllMaps ?w = [example_map 1]"
    by (simp add: getAllMaps_stored s u example_map_valid)
  have r: "getRecentMaps ?w None = [example_map 1]"
    by (simp add: getRecentMaps_def a slice0_def)
  have i: "\<forall>m\<in>set (stored_records ?w). strict_eq (getprop m ''id'') (JStr ''carte-7'') \<longrightarrow> \<not> validateMapData m"
    by (simp add: s u) (simp add: example_map_def example_props_def lookup_def digits_examples)
  have n: "getMapById ?w (JStr ''carte-7'') = JNull"
    using reads_return_valid_maps_only [of ?w None "JStr ''carte-7''"] i by blast
  have g: "getMapById ?w (JStr ''carte-1'') = example_map 1"
    by (simp add: getMapById_def a) (simp add: example_map_def example_props_def lookup_def digits_examples)
  show ?thesis
    using u s a r n g by (simp add: example_map_valid)
qed

section \<open>Import of a malformed payload\<close>

lemma isArray_truthy: "isArray v \<Longrightarrow> truthy v"
  by (cases v) simp_all

lemma importMaps_malformed:
  assumes "jsonData = Unparsable \<or>
           (\<exists>v. jsonData = Json v \<and> \<not> isArray (getprop (json_roundtrip v) ''maps''))"
  shows "fst (importMaps w jsonData replace) =
           Inl (case jsonData of
                  Unparsable \<Rightarrow> SyntaxError
                | Json v \<Rightarrow> if json_roundtrip v = JNull then TypeError
                            else Error ''Format de fichier invalide'') \<and>
         snd (importMaps w jsonData replace) = w"
  using assms unfolding importMaps_def by auto

text \<open>
  C7. A payload that is not JSON, or that parses to a value whose \<^verbatim>\<open>maps\<close> is missing or is
  not an array, makes \<^verbatim>\<open>importMaps\<close> throw (the SyntaxError of the parser, the TypeError of
  reading \<^verbatim>\<open>maps\<close> off null, or the Error "Format de fichier invalide"), and the state is
  exactly what it was: the stored maps, the stored settings, and no write was tried.
\<close>

theorem import_malformed_payload_fails_without_effect:
  assumes "jsonData = Unparsable \<or>
           (\<exists>v. jsonData = Json v \<and> \<not> isArray (getprop (json_roundtrip v) ''maps''))"
  shows "fst (importMaps w jsonData replace) =
           Inl (case jsonData of
                  Unparsable \<Rightarrow> SyntaxError
                | Json v \<Rightarrow> if json_roundtrip v = JNull then TypeError
                            else Error ''Format de fichier invalide'') \<and>
         snd (importMaps w jsonData replace) = w"
  using assms by (rule importMaps_malformed)

theorem import_malformed_payload_witness:
  "importMaps world_of_8 Unparsable False = (Inl SyntaxError, world_of_8) \<and>
   importMaps world_of_8 (Json JNull) True = (Inl TypeError, world_of_8) \<and>
   importMaps world_of_8 (Json (JObj [(''version'', JStr ''1.0.0'')])) False =
     (Inl (Error ''Format de fichier invalide''), world_of_8) \<and>
   importMaps world_of_8 (Json (JObj [(''maps'', JStr ''carte'')])) False =
     (Inl (Error ''Format de fichier invalide''), world_of_8)"
  using import_malformed_payload_fails_without_effect [of Unparsable world_of_8 False]
    import_malformed_payload_fails_without_effect [of "Json JNull" world_of_8 True]
    import_malformed_payload_fails_without_effect [of "Json (JObj [(''version'', JStr ''1.0.0'')])" world_of_8 False]
    import_malformed_payload_fails_without_effect [of "Json (JObj [(''maps'', JStr ''carte'')])" world_of_8 False]
  by (simp add: lookup_def prod_eq_iff)

section \<open>Renaming\<close>

text \<open>
  C2. The claim: the repository has a rename operation that does nothing, and throws
  nothing, for an id that is not stored. \<^verbatim>\<open>MapStorage\<close> has no member \<^verbatim>\<open>renameMap\<close>, so the
  rename of the list page throws a TypeError whatever the id and the name are.
\<close>

theorem executeMapRename_throws:
  "executeMapRename allMaps mapId newName = Inl TypeError"
  by (simp add: executeMapRename_def MapStorage_members_def)

section \<open>Migration\<close>

text \<open>
  C8. The claim: the migration gives zoom its default only when the field is absent.
  \<^verbatim>\<open>applyMigrations\<close> tests \<^verbatim>\<open>!mapData.zoom\<close>, which also holds of the zoom level 0: the
  stored map of version 0.9.0 with zoom 0 comes out of the migration with zoom 6.
\<close>

theorem migration_overwrites_zoom_0:
  "getAllMaps world_with_old_map = [old_map] \<and>
   getprop old_map ''zoom'' = JNum (Fin 0) \<and>
   fst (migrateMaps world_with_old_map (JStr ''0.9.0'') (JStr VERSION)) = Inr (1, 1) \<and>
   map (\<lambda>m. getprop m ''zoom'') (getAllMaps (snd (migrateMaps world_with_old_map (JStr ''0.9.0'') (JStr VERSION))))
     = [JNum (Fin 6)]"
proof -
  have v: "validateMapData old_map" "json_roundtrip old_map = old_map"
    by (simp_all add: validateMapData_def old_map_def lookup_def)
  have g: "getAllMaps world_with_old_map = [old_map]"
    by (simp add: getAllMaps_def world_with_old_map_def example_world_def v)
  have a: "applyMigrations world_with_old_map (own_props old_map) =
             (Inr (assign ''zoom'' (JNum (Fin 6)) (own_props old_map)), world_with_old_map)"
    by (simp add: applyMigrations_def old_map_def lookup_def)
  have e: "migrate_each world_with_old_map (JStr VERSION) [old_map] =
             (Inr ([JObj (assign ''version'' (JStr VERSION) (assign ''zoom'' (JNum (Fin 6)) (own_props old_map)))], 1),
              world_with_old_map)"
    using a by (simp add: old_map_def lookup_def VERSION_def)
  have ok: "write_results world_with_old_map (writes world_with_old_map) = WriteOk"
    by (simp add: world_with_old_map_def example_world_def always_ok_def)
  have m: "migrateMaps world_with_old_map (JStr ''0.9.0'') (JStr VERSION) =
             (Inr (1, 1), snd (setItem world_with_old_map STORAGE_KEY
                (JArr [JObj (assign ''version'' (JStr VERSION) (assign ''zoom'' (JNum (Fin 6)) (own_props old_map)))])))"
    unfolding migrateMaps_def Let_def g e using ok by (simp add: split_def)
  have r: "getAllMaps (snd (setItem world_with_old_map STORAGE_KEY
                (JArr [JObj (assign ''version'' (JStr VERSION) (assign ''zoom'' (JNum (Fin 6)) (own_props old_map)))])))
           = [JObj (assign ''version'' (JStr VERSION) (assign ''zoom'' (JNum (Fin 6)) (own_props old_map)))]"
    using ok by (simp add: getAllMaps_def setItem_items)
      (simp add: old_map_def validateMapData_def lookup_def)
  show ?thesis
    by (simp add: g m r) (simp add: old_map_def lookup_def)
qed

section \<open>Objects: reading, assigning, serialising\<close>

lemma lookup_assign: "lookup (assign k v ps) k' = (if k' = k then v else lookup ps k')"
  by (induction ps) (auto simp: lookup_def)

lemma length_filter_full: "length (filter P xs) = length xs \<Longrightarrow> \<forall>x\<in>set xs. P x"
  using length_filter_less [of _ xs P] by (metis less_irrefl)

lemma json_roundtrip_JObj_iff: "(json_roundtrip (JObj ps) = JObj ps) = plain_props ps"
proof
  assume a: "json_roundtrip (JObj ps) = JObj ps"
  then have m: "map (\<lambda>p. (fst p, json_roundtrip (snd p))) (filter (\<lambda>p. snd p \<noteq> JUndefined) ps) = ps"
    by simp
  then have "length (filter (\<lambda>p. snd p \<noteq> JUndefined) ps) = length ps"
    by (metis length_map)
  then have f: "\<forall>p\<in>set ps. snd p \<noteq> JUndefined"
    by (rule length_filter_full)
  then have "filter (\<lambda>p. snd p \<noteq> JUndefined) ps = ps"
    by (simp add: filter_all)
  with m have "map (\<lambda>p. (fst p, json_roundtrip (snd p))) ps = ps" by simp
  then have "\<forall>p\<in>set ps. (fst p, json_roundtrip (snd p)) = p"
    by (auto dest: map_fixed)
  then have "\<forall>p\<in>set ps. json_roundtrip (snd p) = snd p"
    by (metis snd_conv)
  with f show "plain_props ps" by (simp add: plain_props_def)
next
  assume "plain_props ps"
  then have f: "\<forall>p\<in>set ps. snd p \<noteq> JUndefined" and r: "\<forall>p\<in>set ps. (fst p, json_roundtrip (snd p)) = p"
    by (simp_all add: plain_props_def)
  show "json_roundtrip (JObj ps) = JObj ps"
    using f r by (simp add: filter_all map_all_fixed)
qed

lemma set_assign: "set (assign k v ps) \<subseteq> insert (k, v) (set ps)"
  by (induction ps) auto

lemma plain_props_assign:
  "plain_props ps \<Longrightarrow> v \<noteq> JUndefined \<Longrightarrow> json_roundtrip v = v \<Longrightarrow> plain_props (assign k v ps)"
  unfolding plain_props_def using set_assign [of k v ps] by fastforce

section \<open>findIndex and find\<close>

lemma findIndex_None: "(findIndex p xs = None) = (\<forall>x\<in>set xs. \<not> p x)"
  by (induction xs) auto

lemma findIndex_Some:
  "findIndex p xs = Some i \<Longrightarrow> i < length xs \<and> p (xs ! i) \<and> (\<forall>j<i. \<not> p (xs ! j))"
proof (induction xs arbitrary: i)
  case Nil
  then show ?case by simp
next
  case (Cons x xs)
  show ?case
  proof (cases "p x")
    case True
    with Cons.prems show ?thesis by simp
  next
    case False
    with Cons.prems obtain i' where i': "findIndex p xs = Some i'" "i = Suc i'"
      by auto
    from Cons.IH [OF i'(1)] False i'(2) show ?thesis
      by (auto simp: nth_Cons split: nat.splits)
  qed
qed

lemma find_update:
  "findIndex p xs = Some i \<Longrightarrow> p y \<Longrightarrow> find p (xs[i := y]) = Some y"
proof (induction xs arbitrary: i)
  case Nil
  then show ?case by simp
next
  case (Cons x xs)
  then show ?case by (cases "p x") auto
qed

lemma findIndex_member: "x \<in> set xs \<Longrightarrow> p x \<Longrightarrow> \<exists>i. findIndex p xs = Some i"
  using findIndex_None [of p xs] by (cases "findIndex p xs") auto

section \<open>Saving a map that is in the store\<close>

lemma validateMapData_JObj:
  "validateMapData (JObj ps) =
     ((\<exists>s. lookup ps ''id'' = JStr s \<and> s \<noteq> []) \<and> (\<exists>s. lookup ps ''title'' = JStr s \<and> s \<noteq> []) \<and>
      truthy (lookup ps ''created'') \<and> truthy (lookup ps ''modified''))"
proof -
  have ty_str: "\<And>v. (truthy v \<and> typeof v = TString) = (\<exists>s. v = JStr s \<and> s \<noteq> [])"
    by (case_tac v) auto
  show ?thesis
    unfolding validateMapData_def
    using ty_str [of "lookup ps ''id''"] ty_str [of "lookup ps ''title''"]
    by (simp; blast)
qed

lemma stampMap_with_id:
  assumes "truthy (lookup m ''id'')"
  shows "stampMap w m =
           (assign ''modified'' (JStr (iso_string w (clock w (clock_reads w))))
              (assign ''version'' (JStr VERSION) m),
            w\<lparr>clock_reads := Suc (clock_reads w)\<rparr>)"
  using assms unfolding stampMap_def now_iso_def by simp

lemma stamped_lookup:
  assumes "truthy (lookup m ''id'')"
  shows "lookup (fst (stampMap w m)) k =
           (if k = ''modified'' then JStr (iso_string w (clock w (clock_reads w)))
            else if k = ''version'' then JStr VERSION else lookup m k)"
  by (simp add: stampMap_with_id [OF assms] lookup_assign)

lemma getAllMaps_after_write:
  assumes "write_results w (writes w) = WriteOk"
      and "\<forall>x\<in>set xs. validateMapData x \<and> json_roundtrip x = x"
  shows "getAllMaps (snd (setItem w STORAGE_KEY (JArr xs))) = xs"
proof -
  have "items (snd (setItem w STORAGE_KEY (JArr xs))) = (items w)(STORAGE_KEY \<mapsto> Json (JArr xs))"
    using assms(1) by (simp add: setItem_items)
  then have "getAllMaps (snd (setItem w STORAGE_KEY (JArr xs))) = filter validateMapData (map json_roundtrip xs)"
    by (rule getAllMaps_written)
  then show ?thesis
    using reread_valid_stable [OF assms(2)] by simp
qed

lemma save_existing:
  assumes present: "JObj m \<in> set (getAllMaps w)"
      and ok: "write_results w (writes w) = WriteOk"
      and iso: "\<forall>t. iso_string w t \<noteq> []"
  shows "fst (saveMap w m) = Inr (lookup m ''id'') \<and>
         length (getAllMaps (snd (saveMap w m))) = length (getAllMaps w) \<and>
         getMapById (snd (saveMap w m)) (lookup m ''id'') = JObj (fst (stampMap w m)) \<and>
         JObj (fst (stampMap w m)) \<in> set (getAllMaps (snd (saveMap w m))) \<and>
         lookup (fst (stampMap w m)) ''id'' = lookup m ''id''"
proof -
  let ?m1 = "fst (stampMap w m)"
  let ?w1 = "snd (stampMap w m)"
  let ?p = "\<lambda>r. strict_eq (getprop r ''id'') (lookup ?m1 ''id'')"
  have valid: "validateMapData (JObj m)" and plain: "plain_props m"
    using present getAllMaps_valid getAllMaps_stable json_roundtrip_JObj_iff by blast+
  then obtain s where s: "lookup m ''id'' = JStr s" "s \<noteq> []"
    by (auto simp: validateMapData_JObj)
  then have t: "truthy (lookup m ''id'')" by simp
  have id1: "lookup ?m1 ''id'' = JStr s"
    by (simp add: stamped_lookup [OF t] s)
  have valid1: "validateMapData (JObj ?m1)"
    using valid iso by (simp add: validateMapData_JObj stamped_lookup [OF t])
  have "plain_props ?m1"
    using plain by (simp add: stampMap_with_id [OF t] plain_props_assign)
  then have plain1: "json_roundtrip (JObj ?m1) = JObj ?m1"
    using json_roundtrip_JObj_iff by blast
  have "?p (JObj m)" by (simp add: id1 s)
  with present obtain i where i: "findIndex ?p (getAllMaps w) = Some i"
    using findIndex_member [of "JObj m" "getAllMaps w" ?p] by auto
  have put: "putMap w ?m1 (getAllMaps w) = (getAllMaps w)[i := JObj ?m1]"
    by (simp add: putMap_def i)
  have all: "\<forall>x\<in>set ((getAllMaps w)[i := JObj ?m1]). validateMapData x \<and> json_roundtrip x = x"
  proof
    fix x
    assume "x \<in> set ((getAllMaps w)[i := JObj ?m1])"
    then have "x = JObj ?m1 \<or> x \<in> set (getAllMaps w)"
      using set_update_subset_insert [of "getAllMaps w" i "JObj ?m1"] by auto
    then show "validateMapData x \<and> json_roundtrip x = x"
      using valid1 plain1 getAllMaps_valid [of x w] getAllMaps_stable [of x w] by auto
  qed
  have ok1: "write_results ?w1 (writes ?w1) = WriteOk"
    using ok by simp
  have after: "getAllMaps (snd (saveMap w m)) = (getAllMaps w)[i := JObj ?m1]"
    using ok getAllMaps_after_write [OF ok1 all]
    by (simp add: saveMap_unfold put)
  have res: "fst (saveMap w m) = Inr (lookup m ''id'')"
    using ok by (simp add: saveMap_unfold id1 s)
  have "find ?p ((getAllMaps w)[i := JObj ?m1]) = Some (JObj ?m1)"
    using i by (rule find_update) (simp add: id1)
  then have get: "getMapById (snd (saveMap w m)) (lookup m ''id'') = JObj ?m1"
    by (simp add: getMapById_def after id1 s)
  have "i < length (getAllMaps w)"
    using findIndex_Some [OF i] by simp
  then have mem: "JObj ?m1 \<in> set ((getAllMaps w)[i := JObj ?m1])"
    by (simp add: set_update_memI)
  show ?thesis
    using res get mem by (simp add: after id1 s)
qed


lemma saveMap_ok_frame:
  assumes "write_results w (writes w) = WriteOk"
  shows "writes (snd (saveMap w m)) = Suc (writes w)"
    and "write_results (snd (saveMap w m)) = write_results w"
    and "iso_string (snd (saveMap w m)) = iso_string w"
    and "date_value (snd (saveMap w m)) = date_value w"
  using assms by (simp_all add: saveMap_unfold)

text \<open>
  C9. A map that is in the collection is saved twice under its id, the second time as the
  first save left the caller's object. Both writes succeed. After each save the collection
  has as many maps as before, and \<^verbatim>\<open>getMapById\<close> returns the object as that save stamped it:
  the content of the map with the version and the new time of modification, nothing else
  changed.
\<close>

theorem save_same_map_twice:
  assumes "JObj m \<in> set (getAllMaps w)"
      and "write_results w (writes w) = WriteOk"
      and "write_results w (Suc (writes w)) = WriteOk"
      and "\<forall>t. iso_string w t \<noteq> []"
  shows "let m1 = fst (stampMap w m); w1 = snd (saveMap w m);
             m2 = fst (stampMap w1 m1); w2 = snd (saveMap w1 m1)
         in length (getAllMaps w1) = length (getAllMaps w) \<and>
            getMapById w1 (lookup m ''id'') = JObj m1 \<and>
            length (getAllMaps w2) = length (getAllMaps w) \<and>
            getMapById w2 (lookup m ''id'') = JObj m2 \<and>
            (\<forall>k. k \<noteq> ''modified'' \<and> k \<noteq> ''version'' \<longrightarrow> lookup m1 k = lookup m k \<and> lookup m2 k = lookup m k)"
proof -
  let ?m1 = "fst (stampMap w m)"
  let ?w1 = "snd (saveMap w m)"
  let ?m2 = "fst (stampMap ?w1 ?m1)"
  let ?w2 = "snd (saveMap ?w1 ?m1)"
  have first: "length (getAllMaps ?w1) = length (getAllMaps w)"
    "getMapById ?w1 (lookup m ''id'') = JObj ?m1"
    "JObj ?m1 \<in> set (getAllMaps ?w1)"
    "lookup ?m1 ''id'' = lookup m ''id''"
    using save_existing [OF assms(1) assms(2) assms(4)] by simp_all
  have ok1: "write_results ?w1 (writes ?w1) = WriteOk"
    using assms(3) by (simp add: saveMap_ok_frame [OF assms(2)])
  have iso1: "\<forall>t. iso_string ?w1 t \<noteq> []"
    using assms(4) by (simp add: saveMap_ok_frame [OF assms(2)])
  have second: "length (getAllMaps ?w2) = length (getAllMaps ?w1)"
    "getMapById ?w2 (lookup ?m1 ''id'') = JObj ?m2"
    using save_existing [OF first(3) ok1 iso1] by simp_all
  have "validateMapData (JObj m)"
    using assms(1) by (rule getAllMaps_valid)
  then have t: "truthy (lookup m ''id'')"
    by (auto simp: validateMapData_JObj)
  then have t1: "truthy (lookup ?m1 ''id'')"
    by (simp add: first(4))
  have same: "\<forall>k. k \<noteq> ''modified'' \<and> k \<noteq> ''version'' \<longrightarrow> lookup ?m1 k = lookup m k \<and> lookup ?m2 k = lookup m k"
    by (simp add: stamped_lookup [OF t] stamped_lookup [OF t1])
  show ?thesis
    using first second same by (simp add: Let_def)
qed

lemma example_iso_nonempty: "example_iso t \<noteq> []"
  by (simp add: example_iso_def Let_def)

lemma example_iso_first: "example_iso (example_time 60) = ''2024-01-01T01:00:00.000Z''"
  by code_simp

lemma example_iso_second: "example_iso (example_time 60 + 1) = ''2024-01-01T01:00:00.001Z''"
  by code_simp

theorem save_same_map_twice_witness:
  "JObj (example_props 2) \<in> set (getAllMaps world_of_3) \<and>
   length (getAllMaps world_of_3) = 3 \<and>
   length (getAllMaps (snd (saveMap world_of_3 (example_props 2)))) = 3 \<and>
   getMapById (snd (saveMap world_of_3 (example_props 2))) (JStr ''carte-2'') =
     JObj (assign ''modified'' (JStr ''2024-01-01T01:00:00.000Z'')
            (assign ''version'' (JStr ''1.0.0'') (example_props 2))) \<and>
   length (getAllMaps (snd (saveMap (snd (saveMap world_of_3 (example_props 2)))
      (fst (stampMap world_of_3 (example_props 2)))))) = 3 \<and>
   getMapById (snd (saveMap (snd (saveMap world_of_3 (example_props 2)))
      (fst (stampMap world_of_3 (example_props 2))))) (JStr ''carte-2'') =
     JObj (assign ''modified'' (JStr ''2024-01-01T01:00:00.001Z'')
            (assign ''version'' (JStr ''1.0.0'') (example_props 2)))"
proof -
  let ?w = world_of_3
  let ?m = "example_props 2"
  have g: "getAllMaps ?w = map example_map [0..<3]"
    unfolding world_of_3_def by (rule getAllMaps_example_world)
  have "example_map 2 \<in> set (map example_map [0..<3])"
    by simp
  then have p: "JObj ?m \<in> set (getAllMaps ?w)"
    by (simp add: g example_map_def)
  have ok: "write_results ?w (writes ?w) = WriteOk" "write_results ?w (Suc (writes ?w)) = WriteOk"
    by (simp_all add: world_of_3_def example_world_def always_ok_def)
  have iso: "\<forall>t. iso_string ?w t \<noteq> []"
    by (simp add: world_of_3_def example_world_def example_iso_nonempty)
  have id: "lookup ?m ''id'' = JStr ''carte-2''"
    by (simp add: example_props_def lookup_def digits_examples)
  then have t: "truthy (lookup ?m ''id'')" by simp
  have m1: "fst (stampMap ?w ?m) =
      assign ''modified'' (JStr ''2024-01-01T01:00:00.000Z'') (assign ''version'' (JStr ''1.0.0'') ?m)"
    unfolding stampMap_with_id [OF t]
    by (simp add: world_of_3_def example_world_def example_iso_first VERSION_def)
  have t1: "truthy (lookup (fst (stampMap ?w ?m)) ''id'')"
    using t by (simp add: stamped_lookup [OF t])
  have c1: "clock (snd (saveMap ?w ?m)) = clock ?w" "iso_string (snd (saveMap ?w ?m)) = iso_string ?w"
    "clock_reads (snd (saveMap ?w ?m)) = Suc (clock_reads ?w)"
    using ok(1) by (simp_all add: saveMap_unfold stampMap_with_id [OF t])
  have m2: "fst (stampMap (snd (saveMap ?w ?m)) (fst (stampMap ?w ?m))) =
      assign ''modified'' (JStr ''2024-01-01T01:00:00.001Z'') (assign ''version'' (JStr ''1.0.0'') ?m)"
  proof -
    have a: "fst (stampMap (snd (saveMap ?w ?m)) (fst (stampMap ?w ?m))) =
        assign ''modified'' (JStr (iso_string ?w (clock ?w (Suc (clock_reads ?w)))))
          (assign ''version'' (JStr VERSION) (fst (stampMap ?w ?m)))"
      by (simp add: stampMap_with_id [OF t1] c1)
    have b: "assign ''modified'' (JStr (iso_string ?w (clock ?w (Suc (clock_reads ?w)))))
          (assign ''version'' (JStr VERSION)
            (assign ''modified'' (JStr ''2024-01-01T01:00:00.000Z'') (assign ''version'' (JStr ''1.0.0'') ?m))) =
        assign ''modified'' (JStr ''2024-01-01T01:00:00.001Z'') (assign ''version'' (JStr ''1.0.0'') ?m)"
      by (simp add: world_of_3_def example_world_def example_iso_second VERSION_def example_props_def)
    show ?thesis
      by (subst a, subst m1, rule b)
  qed
  have T: "length (getAllMaps (snd (saveMap ?w ?m))) = length (getAllMaps ?w) \<and>
      getMapById (snd (saveMap ?w ?m)) (lookup ?m ''id'') = JObj (fst (stampMap ?w ?m)) \<and>
      length (getAllMaps (snd (saveMap (snd (saveMap ?w ?m)) (fst (stampMap ?w ?m))))) = length (getAllMaps ?w) \<and>
      getMapById (snd (saveMap (snd (saveMap ?w ?m)) (fst (stampMap ?w ?m)))) (lookup ?m ''id'') =
        JObj (fst (stampMap (snd (saveMap ?w ?m)) (fst (stampMap ?w ?m))))"
    using save_same_map_twice [OF p ok iso] by (simp add: Let_def)
  have l: "length (getAllMaps ?w) = 3"
    by (simp add: g)
  show ?thesis
    using T p by (simp only: m2 id l) (simp add: m1)
qed

section \<open>Import of a well-formed envelope\<close>

lemma advance_0 [simp]: "advance w 0 = w"
  by (simp add: advance_def)






lemma advance_frame [simp]:
  "items (advance w n) = items w"
  "writes (advance w n) = writes w"
  "write_results (advance w n) = write_results w"
  "date_value (advance w n) = date_value w"
  "engine_order (advance w n) = engine_order w"
  by (simp_all add: advance_def)





















section \<open>Keeping the newest: the limit applied after every insertion\<close>

lemma drop_insort_key:
  fixes f :: "'a \<Rightarrow> int"
  assumes "sorted (map f S)" "j \<le> length S"
  shows "drop (Suc j) (insort_key f r S) = drop (Suc 0) (insort_key f r (drop j S))"
  using assms
proof (induction S arbitrary: j)
  case Nil
  then show ?case by simp
next
  case (Cons x xs)
  show ?case
  proof (cases j)
    case 0
    then show ?thesis by simp
  next
    case (Suc j')
    show ?thesis
    proof (cases "f r \<le> f x")
      case True
      have "\<forall>y\<in>set (drop j' xs). f r \<le> f y"
        using Cons.prems(1) True by (auto dest!: in_set_dropD)
      then have "insort_key f r (drop j' xs) = r # drop j' xs"
        by (rule insort_is_Cons)
      then show ?thesis using True Suc by simp
    next
      case False
      have "drop (Suc j') (insort_key f r xs) = drop (Suc 0) (insort_key f r (drop j' xs))"
        using Cons.prems Suc by (intro Cons.IH) auto
      then show ?thesis using False Suc by simp
    qed
  qed
qed

lemma sort_key_snoc:
  fixes f :: "'a \<Rightarrow> int"
  assumes "inj_on f (set (xs @ [x]))"
  shows "sort_key f (xs @ [x]) = insort_key f x (sort_key f xs)"
proof (rule sort_key_inj_key_eq)
  show "mset (xs @ [x]) = mset (insort_key f x (sort_key f xs))"
    by simp
  show "inj_on f (set (xs @ [x]))"
    by (rule assms)
  show "sorted (map f (insort_key f x (sort_key f xs)))"
    by (simp add: sorted_insort_key)
qed

lemma sort_key_perm:
  fixes f :: "'a \<Rightarrow> int"
  assumes "mset xs = mset ys" "inj_on f (set xs)"
  shows "sort_key f xs = sort_key f ys"
  using assms by (intro sort_key_inj_key_eq) simp_all

text \<open>The limit as a function of the list alone, for a key \<open>f\<close> and a cap \<open>n\<close>.\<close>

lemma cap_after_each:
  fixes f :: "'a \<Rightarrow> int"
  assumes E: "\<And>xs r. set (xs @ [r]) \<subseteq> set (G @ R) \<Longrightarrow>
                E xs r = (if n < length (xs @ [r])
                          then drop (length (xs @ [r]) - n) (sort_key f (xs @ [r]))
                          else xs @ [r])"
      and inj: "inj_on f (set (G @ R))"
      and n: "0 < n"
  shows "(length (G @ R) \<le> n \<longrightarrow> foldl E G R = G @ R) \<and>
         (n < length (G @ R) \<and> R \<noteq> [] \<longrightarrow>
            foldl E G R = drop (length (G @ R) - n) (sort_key f (G @ R)))"
  using E inj
proof (induction R rule: rev_induct)
  case Nil
  then show ?case by simp
next
  case (snoc r R)
  let ?F = "foldl E G R"
  have inj': "inj_on f (set (G @ R))"
    using snoc.prems(2) by (auto simp: inj_on_def)
  have E': "\<And>xs r. set (xs @ [r]) \<subseteq> set (G @ R) \<Longrightarrow>
                E xs r = (if n < length (xs @ [r])
                          then drop (length (xs @ [r]) - n) (sort_key f (xs @ [r]))
                          else xs @ [r])"
    by (rule snoc.prems(1)) auto
  note IH = snoc.IH [OF E' inj']
  have step: "foldl E G (R @ [r]) = E ?F r"
    by simp
  have subF: "set ?F \<subseteq> set (G @ R)"
  proof (cases "n < length (G @ R) \<and> R \<noteq> []")
    case True
    then have "?F = drop (length (G @ R) - n) (sort_key f (G @ R))"
      using IH by simp
    then show ?thesis
      using set_drop_subset [of "length (G @ R) - n" "sort_key f (G @ R)"] by simp
  next
    case False
    then have "?F = G @ R"
      using IH by (cases R) auto
    then show ?thesis by simp
  qed
  have Eeq: "E ?F r = (if n < length (?F @ [r])
                        then drop (length (?F @ [r]) - n) (sort_key f (?F @ [r]))
                        else ?F @ [r])"
    using subF by (intro snoc.prems(1)) auto
  show ?case
  proof (cases "length (G @ R @ [r]) \<le> n")
    case True
    then have "?F = G @ R" using IH by simp
    then have "foldl E G (R @ [r]) = G @ R @ [r]"
      using True unfolding step Eeq by simp
    then show ?thesis using True by simp
  next
    case False
    then have big: "n < length (G @ R @ [r])" by simp
    have "foldl E G (R @ [r]) = drop (length (G @ R @ [r]) - n) (sort_key f (G @ R @ [r]))"
    proof (cases "n < length (G @ R) \<and> R \<noteq> []")
      case False
      then have FG: "?F = G @ R"
        using IH by (cases R) auto
      show ?thesis
        using big unfolding step Eeq unfolding FG by simp
    next
      case True
      let ?S = "sort_key f (G @ R)"
      let ?j = "length (G @ R) - n"
      have F: "?F = drop ?j ?S"
        using IH True by simp
      have lenF: "length ?F = n"
        using True by (simp add: F)
      have srt: "sorted (map f ?S)" by simp
      have srtF: "sorted (map f (drop ?j ?S))"
        using srt by (simp add: sorted_wrt_drop drop_map [symmetric])
      have injF: "inj_on f (set (drop ?j ?S @ [r]))"
        using snoc.prems(2) by (auto simp: inj_on_def dest!: in_set_dropD)
      have "sort_key f (drop ?j ?S @ [r]) = insort_key f r (sort_key f (drop ?j ?S))"
        using injF by (rule sort_key_snoc)
      also have "sort_key f (drop ?j ?S) = drop ?j ?S"
        using srtF by (rule sort_key_id_if_sorted)
      finally have a: "sort_key f (?F @ [r]) = insort_key f r (drop ?j ?S)"
        by (simp add: F)
      have b: "sort_key f (G @ R @ [r]) = insort_key f r ?S"
        using sort_key_snoc [of f "G @ R" r] snoc.prems(2) by simp
      have c: "drop (Suc ?j) (insort_key f r ?S) = drop (Suc 0) (insort_key f r (drop ?j ?S))"
        using srt by (rule drop_insort_key) simp
      have "foldl E G (R @ [r]) = drop (Suc 0) (sort_key f (?F @ [r]))"
        using lenF n unfolding step Eeq by simp
      also have "\<dots> = drop (Suc ?j) (insort_key f r ?S)"
        by (simp only: a c)
      also have "\<dots> = drop (length (G @ R @ [r]) - n) (sort_key f (G @ R @ [r]))"
        using True by (simp add: b Suc_diff_le)
      finally show ?thesis .
    qed
    then show ?thesis using big by simp
  qed
qed

section \<open>A run of saves\<close>

lemma handleStorageQuotaExceeded_frame [simp]:
  "write_results (handleStorageQuotaExceeded w) = write_results w"
  "date_value (handleStorageQuotaExceeded w) = date_value w"
  "iso_string (handleStorageQuotaExceeded w) = iso_string w"
  "engine_order (handleStorageQuotaExceeded w) = engine_order w"
  by (simp_all add: handleStorageQuotaExceeded_def Let_def)

lemma saveMap_frame [simp]:
  "write_results (snd (saveMap w m)) = write_results w"
  "date_value (snd (saveMap w m)) = date_value w"
  "iso_string (snd (saveMap w m)) = iso_string w"
  "engine_order (snd (saveMap w m)) = engine_order w"
  by (cases "write_results w (writes w)"; simp add: saveMap_unfold)+

lemma saveAll_snoc: "saveAll w (ms @ [m]) = snd (saveMap (saveAll w ms) m)"
  by (simp add: saveAll_def)

lemma saveAll_Cons: "saveAll w (m # ms) = saveAll (snd (saveMap w m)) ms"
  by (simp add: saveAll_def)

lemma saveAll_frame [simp]:
  "write_results (saveAll w ms) = write_results w"
  "date_value (saveAll w ms) = date_value w"
  "iso_string (saveAll w ms) = iso_string w"
  "engine_order (saveAll w ms) = engine_order w"
  by (induction ms rule: rev_induct) (simp_all add: saveAll_snoc, simp_all add: saveAll_def)

lemma stamped_all_snoc:
  "stamped_all w (ms @ [m]) = stamped_all w ms @ [JObj (fst (stampMap (saveAll w ms) m))]"
  by (induction ms arbitrary: w) (simp_all add: saveAll_Cons, simp add: saveAll_def)


lemma strict_eq_imp_eq: "strict_eq a b \<Longrightarrow> a = b"
  by (induction a b rule: strict_eq.induct) auto

lemma lookup_roundtrip:
  "lookup ps k \<noteq> JUndefined \<Longrightarrow>
   lookup (map (\<lambda>p. (fst p, json_roundtrip (snd p))) (filter (\<lambda>p. snd p \<noteq> JUndefined) ps)) k
     = json_roundtrip (lookup ps k)"
  by (induction ps) (auto simp: lookup_def)

lemma getprop_roundtrip_JStr:
  "lookup ps k = JStr s \<Longrightarrow> getprop (json_roundtrip (JObj ps)) k = JStr s"
  using lookup_roundtrip [of ps k] by simp

lemma stamped_modified: "\<exists>s. lookup (fst (stampMap w m)) ''modified'' = JStr s"
  by (simp add: stampMap_def Let_def split_def lookup_assign)

lemma validateMapData_is_object: "validateMapData r \<Longrightarrow> \<exists>ps. r = JObj ps"
  by (cases r) (simp_all add: validateMapData_def)

lemma valid_roundtrip:
  assumes "validateMapData (JObj c)"
      and "\<exists>s. lookup c ''created'' = JStr s"
      and "\<exists>s. lookup c ''modified'' = JStr s"
  shows "validateMapData (json_roundtrip (JObj c))"
    and "getprop (json_roundtrip (JObj c)) ''id'' = lookup c ''id''"
    and "getprop (json_roundtrip (JObj c)) ''created'' = lookup c ''created''"
proof -
  obtain i t cr mo where f: "lookup c ''id'' = JStr i" "i \<noteq> []" "lookup c ''title'' = JStr t" "t \<noteq> []"
      "lookup c ''created'' = JStr cr" "lookup c ''modified'' = JStr mo"
    using assms by (auto simp: validateMapData_JObj)
  have tr: "cr \<noteq> []" "mo \<noteq> []"
    using assms(1) f by (auto simp: validateMapData_JObj)
  have g: "getprop (json_roundtrip (JObj c)) ''id'' = JStr i"
    "getprop (json_roundtrip (JObj c)) ''title'' = JStr t"
    "getprop (json_roundtrip (JObj c)) ''created'' = JStr cr"
    "getprop (json_roundtrip (JObj c)) ''modified'' = JStr mo"
    using f by (simp_all only: getprop_roundtrip_JStr)
  show "validateMapData (json_roundtrip (JObj c))"
    using g f(2,4) tr by (simp add: validateMapData_def)
  show "getprop (json_roundtrip (JObj c)) ''id'' = lookup c ''id''"
    using g f by simp
  show "getprop (json_roundtrip (JObj c)) ''created'' = lookup c ''created''"
    using g f by simp
qed

lemma insort_cmp_map:
  "\<forall>y\<in>set ys. c (h x) (h y) = c x y \<Longrightarrow>
   insort_cmp c (h x) (map h ys) = map h (insort_cmp c x ys)"
  by (induction ys) simp_all

lemma foldr_insort_cmp_map:
  "\<forall>x\<in>set xs. \<forall>y\<in>set xs. c (h x) (h y) = c x y \<Longrightarrow>
   foldr (insort_cmp c) (map h xs) [] = map h (foldr (insort_cmp c) xs [])"
proof (induction xs)
  case Nil
  then show ?case by simp
next
  case (Cons x xs)
  have IH: "foldr (insort_cmp c) (map h xs) [] = map h (foldr (insort_cmp c) xs [])"
    using Cons by simp
  have "\<forall>y\<in>set (foldr (insort_cmp c) xs []). c (h x) (h y) = c x y"
    using Cons.prems by (simp add: set_foldr_insort_cmp)
  then have "insort_cmp c (h x) (map h (foldr (insort_cmp c) xs [])) =
             map h (insort_cmp c x (foldr (insort_cmp c) xs []))"
    by (rule insort_cmp_map)
  then show ?case
    using IH by simp
qed

lemma never_NaN_map:
  "\<forall>x\<in>set xs. \<forall>y\<in>set xs. c (h x) (h y) = c x y \<Longrightarrow> never_NaN c (map h xs) = never_NaN c xs"
  by (auto simp: never_NaN_def list_all_iff)

lemma js_sort_map:
  "\<forall>x\<in>set xs. \<forall>y\<in>set xs. c (h x) (h y) = c x y \<Longrightarrow> never_NaN c xs \<Longrightarrow>
   js_sort w c (map h xs) = map h (js_sort w c xs)"
  by (simp add: js_sort_def never_NaN_map foldr_insort_cmp_map)

lemma enforceMapLimit_map:
  "\<forall>x\<in>set xs. \<forall>y\<in>set xs. by_created w (h x) (h y) = by_created w x y \<Longrightarrow>
   never_NaN (by_created w) xs \<Longrightarrow>
   enforceMapLimit w (map h xs) = map h (enforceMapLimit w xs)"
  by (simp add: enforceMapLimit_def js_sort_map drop_map)

lemma set_enforceMapLimit: "set (enforceMapLimit w xs) \<subseteq> set xs"
  using set_drop_subset [of "length xs - MAX_MAPS" "js_sort w (by_created w) xs"]
  by (simp add: enforceMapLimit_def)

lemma created_time_cong: "date_value w' = date_value w \<Longrightarrow> created_time w' = created_time w"
  by (intro ext) (simp add: created_time_def)

lemma created_time_roundtrip:
  assumes "validateMapData s" "\<exists>c. getprop s ''created'' = JStr c"
  shows "created_time w (json_roundtrip s) = created_time w s"
proof -
  obtain ps c where "s = JObj ps" "lookup ps ''created'' = JStr c"
    using assms validateMapData_is_object by fastforce
  then show ?thesis
    using getprop_roundtrip_JStr [of ps "''created''" c] by (simp add: created_time_def)
qed

lemma save_new:
  assumes ok: "write_results w (writes w) = WriteOk"
      and valid: "validateMapData (JObj (fst (stampMap w m)))"
      and created: "\<exists>s. lookup (fst (stampMap w m)) ''created'' = JStr s"
      and new: "\<forall>x\<in>set (getAllMaps w). getprop x ''id'' \<noteq> lookup (fst (stampMap w m)) ''id''"
      and dates: "\<forall>x\<in>set (getAllMaps w @ [JObj (fst (stampMap w m))]). created_time w x \<noteq> None"
  shows "getAllMaps (snd (saveMap w m)) =
           enforceMapLimit w (getAllMaps w @ [json_roundtrip (JObj (fst (stampMap w m)))])"
proof -
  let ?m1 = "fst (stampMap w m)"
  let ?w1 = "snd (stampMap w m)"
  let ?G = "getAllMaps w"
  let ?r = "JObj ?m1"
  have none: "findIndex (\<lambda>x. strict_eq (getprop x ''id'') (lookup ?m1 ''id'')) ?G = None"
    using new by (auto simp: findIndex_None dest: strict_eq_imp_eq)
  have put: "putMap w ?m1 ?G = enforceMapLimit w (?G @ [?r])"
    by (simp add: putMap_def none)
  have vr: "validateMapData (json_roundtrip ?r)"
    and cr: "getprop (json_roundtrip ?r) ''created'' = lookup ?m1 ''created''"
    using valid_roundtrip [OF valid created stamped_modified] by simp_all
  have fixG: "\<forall>x\<in>set ?G. json_roundtrip x = x"
    by (simp add: getAllMaps_stable)
  have inv: "\<forall>x\<in>set (?G @ [?r]). \<forall>y\<in>set (?G @ [?r]).
               by_created w (json_roundtrip x) (json_roundtrip y) = by_created w x y"
  proof (intro ballI)
    fix x y
    assume "x \<in> set (?G @ [?r])" "y \<in> set (?G @ [?r])"
    then have "getprop (json_roundtrip x) ''created'' = getprop x ''created''"
      "getprop (json_roundtrip y) ''created'' = getprop y ''created''"
      using fixG cr by auto
    then show "by_created w (json_roundtrip x) (json_roundtrip y) = by_created w x y"
      by (simp add: by_created_def)
  qed
  have nn: "never_NaN (by_created w) (?G @ [?r])"
    using dates by (rule never_NaN_by_created)
  have "map json_roundtrip (enforceMapLimit w (?G @ [?r])) = enforceMapLimit w (map json_roundtrip (?G @ [?r]))"
    using inv nn by (rule enforceMapLimit_map [symmetric])
  also have "map json_roundtrip (?G @ [?r]) = ?G @ [json_roundtrip ?r]"
    using fixG by (simp add: map_all_fixed)
  finally have mp: "map json_roundtrip (enforceMapLimit w (?G @ [?r])) = enforceMapLimit w (?G @ [json_roundtrip ?r])" .
  have allv: "\<forall>x\<in>set (enforceMapLimit w (?G @ [json_roundtrip ?r])). validateMapData x"
    using set_enforceMapLimit [of w "?G @ [json_roundtrip ?r]"] vr getAllMaps_valid [of _ w]
    by auto
  have it: "items (snd (saveMap w m)) = (items w)(STORAGE_KEY \<mapsto> Json (JArr (enforceMapLimit w (?G @ [?r]))))"
    using ok by (simp add: saveMap_unfold put setItem_items)
  have "getAllMaps (snd (saveMap w m)) = filter validateMapData (map json_roundtrip (enforceMapLimit w (?G @ [?r])))"
    using it by (rule getAllMaps_written)
  then show ?thesis
    using allv by (simp add: mp filter_all)
qed

lemma set_foldl_enforce:
  "set (foldl (\<lambda>xs r. enforceMapLimit w (xs @ [r])) G R) \<subseteq> set G \<union> set R"
proof (induction R rule: rev_induct)
  case Nil
  then show ?case by simp
next
  case (snoc r R)
  show ?case
    using snoc set_enforceMapLimit [of w "foldl (\<lambda>xs r. enforceMapLimit w (xs @ [r])) G R @ [r]"]
    by auto
qed

lemma valid_roundtrip_id:
  assumes "validateMapData r"
  shows "getprop (json_roundtrip r) ''id'' = getprop r ''id''"
proof -
  obtain ps where r: "r = JObj ps"
    using assms validateMapData_is_object by blast
  then obtain i where "lookup ps ''id'' = JStr i"
    using assms by (auto simp: validateMapData_JObj)
  then show ?thesis
    using getprop_roundtrip_JStr [of ps "''id''" i] r by simp
qed

lemma saveAll_collection:
  assumes ok: "\<forall>n. write_results w n = WriteOk"
      and valid: "\<forall>r\<in>set (stamped_all w ms). validateMapData r \<and> (\<exists>s. getprop r ''created'' = JStr s)"
      and ids: "distinct (map (\<lambda>r. getprop r ''id'') (getAllMaps w @ stamped_all w ms))"
      and dates: "\<forall>r\<in>set (getAllMaps w @ stamped_all w ms). created_time w r \<noteq> None"
  shows "getAllMaps (saveAll w ms) =
           foldl (\<lambda>xs r. enforceMapLimit w (xs @ [r])) (getAllMaps w) (map json_roundtrip (stamped_all w ms))"
  using valid ids dates
proof (induction ms rule: rev_induct)
  case Nil
  then show ?case by (simp add: saveAll_def)
next
  case (snoc m ms)
  let ?W = "saveAll w ms"
  let ?S = "stamped_all w ms"
  let ?r = "JObj (fst (stampMap ?W m))"
  let ?E = "\<lambda>xs r. enforceMapLimit w (xs @ [r])"
  have S: "stamped_all w (ms @ [m]) = ?S @ [?r]"
    by (rule stamped_all_snoc)
  have v: "\<forall>r\<in>set ?S. validateMapData r \<and> (\<exists>s. getprop r ''created'' = JStr s)"
    and vr: "validateMapData ?r" "\<exists>s. lookup (fst (stampMap ?W m)) ''created'' = JStr s"
    using snoc.prems(1) by (simp_all add: S)
  have d: "distinct (map (\<lambda>r. getprop r ''id'') (getAllMaps w @ ?S))"
    using snoc.prems(2) by (simp add: S)
  have dt: "\<forall>r\<in>set (getAllMaps w @ ?S). created_time w r \<noteq> None"
    and dtr: "created_time w ?r \<noteq> None"
    using snoc.prems(3) by (simp_all add: S)
  have "getprop ?r ''id'' \<notin> set (map (\<lambda>r. getprop r ''id'') (getAllMaps w @ ?S))"
    using snoc.prems(2) by (simp add: S)
  then have dr: "\<forall>x\<in>set (getAllMaps w @ ?S). getprop x ''id'' \<noteq> getprop ?r ''id''"
    by (metis image_eqI set_map)
  have IH: "getAllMaps ?W = foldl ?E (getAllMaps w) (map json_roundtrip ?S)"
    using snoc.IH [OF v d dt] .
  have mem: "\<forall>x\<in>set (getAllMaps ?W). x \<in> set (getAllMaps w) \<or> (\<exists>s\<in>set ?S. x = json_roundtrip s)"
    using set_foldl_enforce [of w "getAllMaps w" "map json_roundtrip ?S"] IH by auto
  have new: "\<forall>x\<in>set (getAllMaps ?W). getprop x ''id'' \<noteq> lookup (fst (stampMap ?W m)) ''id''"
  proof
    fix x
    assume "x \<in> set (getAllMaps ?W)"
    then have "x \<in> set (getAllMaps w) \<or> (\<exists>s\<in>set ?S. x = json_roundtrip s)"
      using mem by blast
    then show "getprop x ''id'' \<noteq> lookup (fst (stampMap ?W m)) ''id''"
    proof
      assume "x \<in> set (getAllMaps w)"
      then show ?thesis using dr by auto
    next
      assume "\<exists>s\<in>set ?S. x = json_roundtrip s"
      then obtain s where s: "s \<in> set ?S" "x = json_roundtrip s" by auto
      then have "getprop x ''id'' = getprop s ''id''"
        using v valid_roundtrip_id by simp
      then show ?thesis using dr s by auto
    qed
  qed
  have ctW: "created_time ?W = created_time w"
    by (rule created_time_cong) simp
  have datesW: "\<forall>x\<in>set (getAllMaps ?W @ [?r]). created_time ?W x \<noteq> None"
  proof
    fix x
    assume "x \<in> set (getAllMaps ?W @ [?r])"
    then consider "x = ?r" | "x \<in> set (getAllMaps w)" | s where "s \<in> set ?S" "x = json_roundtrip s"
      using mem by auto
    then show "created_time ?W x \<noteq> None"
    proof cases
      case 1
      then show ?thesis using dtr ctW by simp
    next
      case 2
      then show ?thesis using dt ctW by simp
    next
      case 3
      then have "created_time w x = created_time w s"
        using v created_time_roundtrip by simp
      then show ?thesis using dt 3 ctW by simp
    qed
  qed
  have okW: "write_results ?W (writes ?W) = WriteOk"
    using ok by simp
  have "getAllMaps (snd (saveMap ?W m)) = enforceMapLimit ?W (getAllMaps ?W @ [json_roundtrip ?r])"
    using okW vr new datesW by (rule save_new)
  also have "enforceMapLimit ?W = enforceMapLimit w"
    by (rule enforceMapLimit_cong) simp_all
  finally show ?case
    by (simp add: saveAll_snoc S IH)
qed

lemma length_stamped_all [simp]: "length (stamped_all w ms) = length ms"
  by (induction ms arbitrary: w) simp_all

lemma stamped_all_Nil_iff [simp]: "(stamped_all w ms = []) = (ms = [])"
  by (cases ms) simp_all

lemma stamped_all_elem:
  "r \<in> set (stamped_all w ms) \<Longrightarrow>
   \<exists>m\<in>set ms. \<exists>w'. iso_string w' = iso_string w \<and> r = JObj (fst (stampMap w' m))"
proof (induction ms arbitrary: w)
  case Nil
  then show ?case by simp
next
  case (Cons m ms)
  show ?case
  proof (cases "r = JObj (fst (stampMap w m))")
    case True
    then show ?thesis by auto
  next
    case False
    then have "r \<in> set (stamped_all (snd (saveMap w m)) ms)"
      using Cons.prems by simp
    then obtain m' w' where "m' \<in> set ms" "iso_string w' = iso_string (snd (saveMap w m))"
        "r = JObj (fst (stampMap w' m'))"
      using Cons.IH by blast
    then show ?thesis by auto
  qed
qed

lemma stamped_all_lookup:
  assumes "\<forall>m\<in>set ms. truthy (lookup m ''id'')" "k \<noteq> ''version''" "k \<noteq> ''modified''"
  shows "map (\<lambda>r. getprop r k) (stamped_all w ms) = map (\<lambda>m. lookup m k) ms"
  using assms by (induction ms arbitrary: w) (simp_all add: stamped_lookup)

lemma enforce_as_sort:
  assumes "\<forall>x\<in>set xs. created_time w x \<noteq> None"
  shows "enforceMapLimit w xs =
           (if MAX_MAPS < length xs
            then drop (length xs - MAX_MAPS) (sort_key (\<lambda>r. the (created_time w r)) xs)
            else xs)"
  using js_sort_by_created [OF assms] by (simp add: enforceMapLimit_def)

lemma saveAll_newest:
  assumes ok: "\<forall>n. write_results w n = WriteOk"
      and len: "length ms = MAX_MAPS + k" and k: "0 < k"
      and valid: "\<forall>r\<in>set (stamped_all w ms). validateMapData r \<and> (\<exists>s. getprop r ''created'' = JStr s)"
      and ids: "distinct (map (\<lambda>r. getprop r ''id'') (getAllMaps w @ stamped_all w ms))"
      and dates: "\<forall>r\<in>set (getAllMaps w @ stamped_all w ms). created_time w r \<noteq> None"
      and ddates: "distinct (map (created_time w) (getAllMaps w @ stamped_all w ms))"
  shows "length (getAllMaps (saveAll w ms)) = MAX_MAPS \<and>
         getAllMaps (saveAll w ms) =
           drop (length (getAllMaps w) + k)
             (sort_key (\<lambda>r. the (created_time w r))
                (getAllMaps w @ map json_roundtrip (stamped_all w ms)))"
proof -
  let ?G = "getAllMaps w"
  let ?S = "stamped_all w ms"
  let ?R = "map json_roundtrip ?S"
  let ?A = "?G @ ?R"
  let ?f = "\<lambda>r. the (created_time w r)"
  let ?E = "\<lambda>xs r. enforceMapLimit w (xs @ [r])"
  have ct: "\<forall>s\<in>set ?S. created_time w (json_roundtrip s) = created_time w s"
  proof
    fix s
    assume s: "s \<in> set ?S"
    then obtain ps c where "s = JObj ps" "lookup ps ''created'' = JStr c"
      using valid validateMapData_is_object by fastforce
    then show "created_time w (json_roundtrip s) = created_time w s"
      using getprop_roundtrip_JStr [of ps "''created''" c] by (simp add: created_time_def)
  qed
  then have mapct: "map (created_time w) ?A = map (created_time w) (?G @ ?S)"
    by simp
  have some: "\<forall>a\<in>set ?A. created_time w a \<noteq> None"
    using dates ct by auto
  have injc: "inj_on (created_time w) (set ?A)"
    using ddates mapct by (metis distinct_map)
  have inj: "inj_on ?f (set ?A)"
  proof (rule inj_onI)
    fix x y
    assume x: "x \<in> set ?A" and y: "y \<in> set ?A" and e: "?f x = ?f y"
    obtain a b where "created_time w x = Some a" "created_time w y = Some b"
      using some x y by (meson option.exhaust)
    then have "created_time w x = created_time w y"
      using e by simp
    then show "x = y"
      using injc x y by (simp add: inj_on_def)
  qed
  have E: "\<And>xs r. set (xs @ [r]) \<subseteq> set ?A \<Longrightarrow>
             ?E xs r = (if MAX_MAPS < length (xs @ [r])
                        then drop (length (xs @ [r]) - MAX_MAPS) (sort_key ?f (xs @ [r]))
                        else xs @ [r])"
    using some by (intro enforce_as_sort) blast
  have n: "0 < MAX_MAPS"
    by (simp add: MAX_MAPS_def)
  have big: "MAX_MAPS < length ?A" "?R \<noteq> []" "length ?A - MAX_MAPS = length ?G + k"
    using len k by auto
  have "foldl ?E ?G ?R = drop (length ?A - MAX_MAPS) (sort_key ?f ?A)"
    using cap_after_each [of ?G ?R ?E MAX_MAPS ?f, OF E inj n] big by blast
  then have "getAllMaps (saveAll w ms) = drop (length ?G + k) (sort_key ?f ?A)"
    using saveAll_collection [OF ok valid ids dates] big(3) by simp
  then show ?thesis
    using len by simp
qed

text \<open>
  C4. Into a stored collection of \<open>n\<close> maps, \<open>MAX_MAPS + k\<close> maps (\<open>k > 0\<close>) are saved one
  after the other, every write succeeding. The records as saved are valid maps whose
  \<^verbatim>\<open>created\<close> is a string; their ids differ from each other and from the stored ones, so
  that every save is an insertion; the dates of creation, stored and new, are valid and
  differ. Then the collection ends with exactly \<open>MAX_MAPS\<close> records: all records, stored and
  new, sorted by date of creation, without the oldest \<open>n + k\<close>. So the survivors are the
  \<open>MAX_MAPS\<close> newest, and the evicted ones are the oldest \<open>k\<close> when the collection was empty
  and the oldest \<open>n + k\<close> in general.
\<close>

theorem cap_enforcement:
  assumes "\<forall>n. write_results w n = WriteOk"
      and "length ms = MAX_MAPS + k" and "0 < k"
      and "\<forall>r\<in>set (stamped_all w ms). validateMapData r \<and> (\<exists>s. getprop r ''created'' = JStr s)"
      and "distinct (map (\<lambda>r. getprop r ''id'') (getAllMaps w @ stamped_all w ms))"
      and "\<forall>r\<in>set (getAllMaps w @ stamped_all w ms). created_time w r \<noteq> None"
      and "distinct (map (created_time w) (getAllMaps w @ stamped_all w ms))"
  shows "length (getAllMaps (saveAll w ms)) = MAX_MAPS \<and>
         getAllMaps (saveAll w ms) =
           drop (length (getAllMaps w) + k)
             (sort_key (\<lambda>r. the (created_time w r))
                (getAllMaps w @ map json_roundtrip (stamped_all w ms)))"
  using assms by (rule saveAll_newest)


section \<open>Fifty-one maps saved into a store of two\<close>

lemma digits_value: "foldl (\<lambda>a c. 10 * a + (of_char c - 48)) (0::nat) (digits n) = n"
proof (induction n rule: digits.induct)
  case (1 n)
  show ?case
  proof (cases "n < 10")
    case True
    then show ?thesis by (simp add: digits.simps [of n])
  next
    case False
    then have "foldl (\<lambda>a c. 10 * a + (of_char c - 48)) (0::nat) (digits (n div 10)) = n div 10"
      using 1 by simp
    moreover have "n mod 10 < 10" by simp
    ultimately show ?thesis
      using False by (simp add: digits.simps [of n])
  qed
qed

lemma digits_inj: "digits m = digits n \<Longrightarrow> m = n"
  by (metis digits_value)

lemma example_props_lookup:
  "lookup (example_props i) ''id'' = JStr (''carte-'' @ digits i)"
  "lookup (example_props i) ''title'' = JStr (''Carte '' @ digits i)"
  "lookup (example_props i) ''created'' = JStr (example_created i)"
  by (simp_all add: example_props_def lookup_def)

lemma getAllMaps_world_of_2: "getAllMaps world_of_2 = map example_map [55, 56]"
  unfolding world_of_2_def by (rule getAllMaps_example_world)

lemma world_of_2_frame:
  "write_results world_of_2 n = WriteOk"
  "iso_string world_of_2 = example_iso"
  "date_value world_of_2 = example_date_value"
  by (simp_all add: world_of_2_def example_world_def always_ok_def)

lemma fifty_one_ids:
  "map (\<lambda>r. getprop r ''id'') (stamped_all world_of_2 fifty_one_maps) =
   map (\<lambda>i. JStr (''carte-'' @ digits i)) [0..<51]"
proof -
  have "map (\<lambda>r. getprop r ''id'') (stamped_all world_of_2 fifty_one_maps) =
        map (\<lambda>m. lookup m ''id'') fifty_one_maps"
    by (rule stamped_all_lookup) (auto simp: fifty_one_maps_def example_props_lookup)
  then show ?thesis
    by (simp add: fifty_one_maps_def example_props_lookup comp_def)
qed

lemma fifty_one_created:
  "map (\<lambda>r. getprop r ''created'') (stamped_all world_of_2 fifty_one_maps) =
   map (\<lambda>i. JStr (example_created i)) [0..<51]"
proof -
  have "map (\<lambda>r. getprop r ''created'') (stamped_all world_of_2 fifty_one_maps) =
        map (\<lambda>m. lookup m ''created'') fifty_one_maps"
    by (rule stamped_all_lookup) (auto simp: fifty_one_maps_def example_props_lookup)
  then show ?thesis
    by (simp add: fifty_one_maps_def example_props_lookup comp_def)
qed

lemma fifty_one_times:
  "map (created_time world_of_2) (stamped_all world_of_2 fifty_one_maps) =
   map (\<lambda>i. Some (example_time i)) [0..<51]"
proof -
  have "map (created_time world_of_2) (stamped_all world_of_2 fifty_one_maps) =
        map example_date_value (map (\<lambda>r. getprop r ''created'') (stamped_all world_of_2 fifty_one_maps))"
    by (simp add: created_time_def world_of_2_frame comp_def)
  also have "\<dots> = map (\<lambda>i. example_date_value (JStr (example_created i))) [0..<51]"
    unfolding fifty_one_created by (simp add: comp_def)
  also have "\<dots> = map (\<lambda>i. Some (example_time i)) [0..<51]"
    by (rule map_cong) (simp_all add: example_date_value_created)
  finally show ?thesis .
qed

lemma stored_two_times:
  "map (created_time world_of_2) (getAllMaps world_of_2) = map (\<lambda>i. Some (example_time i)) [55, 56]"
proof -
  have "created_time world_of_2 (example_map 55) = Some (example_time 55)"
    "created_time world_of_2 (example_map 56) = Some (example_time 56)"
    unfolding world_of_2_def by (rule created_time_example_map, simp)+
  then show ?thesis
    by (simp add: getAllMaps_world_of_2)
qed

lemma fifty_one_valid:
  "\<forall>r\<in>set (stamped_all world_of_2 fifty_one_maps).
     validateMapData r \<and> (\<exists>s. getprop r ''created'' = JStr s)"
proof
  fix r
  assume "r \<in> set (stamped_all world_of_2 fifty_one_maps)"
  then obtain m w' where m: "m \<in> set fifty_one_maps" and w': "iso_string w' = iso_string world_of_2"
      and r: "r = JObj (fst (stampMap w' m))"
    using stamped_all_elem by blast
  obtain i where i: "m = example_props i"
    using m by (auto simp: fifty_one_maps_def)
  have t: "truthy (lookup (example_props i) ''id'')"
    by (simp add: example_props_lookup)
  show "validateMapData r \<and> (\<exists>s. getprop r ''created'' = JStr s)"
    unfolding r i
    by (simp add: validateMapData_JObj stamped_lookup [OF t] example_props_lookup w'
        world_of_2_frame example_iso_nonempty VERSION_def)
qed

lemma fifty_one_facts:
  "\<forall>n. write_results world_of_2 n = WriteOk"
  "length fifty_one_maps = MAX_MAPS + 1"
  "distinct (map (\<lambda>r. getprop r ''id'') (getAllMaps world_of_2 @ stamped_all world_of_2 fifty_one_maps))"
  "\<forall>r\<in>set (getAllMaps world_of_2 @ stamped_all world_of_2 fifty_one_maps). created_time world_of_2 r \<noteq> None"
  "distinct (map (created_time world_of_2) (getAllMaps world_of_2 @ stamped_all world_of_2 fifty_one_maps))"
proof -
  show "\<forall>n. write_results world_of_2 n = WriteOk"
    by (simp add: world_of_2_frame)
  show "length fifty_one_maps = MAX_MAPS + 1"
    by (simp add: fifty_one_maps_def MAX_MAPS_def)
  have inj: "inj_on (\<lambda>i. JStr (''carte-'' @ digits i)) A" for A
    by (auto simp: inj_on_def dest: digits_inj)
  have "map (\<lambda>r. getprop r ''id'') (getAllMaps world_of_2 @ stamped_all world_of_2 fifty_one_maps) =
        map (\<lambda>i. JStr (''carte-'' @ digits i)) ([55, 56] @ [0..<51])"
    unfolding map_append fifty_one_ids getAllMaps_world_of_2
    by (simp add: example_map_def example_props_lookup)
  moreover have "distinct (map (\<lambda>i. JStr (''carte-'' @ digits i)) ([55, 56] @ [0..<51]))"
    unfolding distinct_map using inj by simp
  ultimately show "distinct (map (\<lambda>r. getprop r ''id'')
      (getAllMaps world_of_2 @ stamped_all world_of_2 fifty_one_maps))"
    by simp
  have t: "map (created_time world_of_2) (getAllMaps world_of_2 @ stamped_all world_of_2 fifty_one_maps) =
           map (\<lambda>i. Some (example_time i)) ([55, 56] @ [0..<51])"
    unfolding map_append fifty_one_times stored_two_times ..
  have "\<forall>x\<in>set (map (created_time world_of_2)
           (getAllMaps world_of_2 @ stamped_all world_of_2 fifty_one_maps)). x \<noteq> None"
    unfolding t by auto
  then show "\<forall>r\<in>set (getAllMaps world_of_2 @ stamped_all world_of_2 fifty_one_maps).
      created_time world_of_2 r \<noteq> None"
    by (metis image_eqI set_map)
  have "inj_on (\<lambda>i. Some (example_time i)) A" for A
    by (auto simp: inj_on_def example_time_def)
  then have "distinct (map (\<lambda>i. Some (example_time i)) ([55, 56] @ [0..<51]))"
    unfolding distinct_map by simp
  then show "distinct (map (created_time world_of_2)
      (getAllMaps world_of_2 @ stamped_all world_of_2 fifty_one_maps))"
    unfolding t .
qed

lemma fifty_one_sorted:
  "sort_key (\<lambda>r. the (created_time world_of_2 r))
     (getAllMaps world_of_2 @ map json_roundtrip (stamped_all world_of_2 fifty_one_maps)) =
   map json_roundtrip (stamped_all world_of_2 fifty_one_maps) @ getAllMaps world_of_2"
proof (rule sort_key_inj_key_eq)
  let ?G = "getAllMaps world_of_2"
  let ?S = "stamped_all world_of_2 fifty_one_maps"
  let ?R = "map json_roundtrip ?S"
  let ?f = "\<lambda>r. the (created_time world_of_2 r)"
  have ct: "map (created_time world_of_2) ?R = map (created_time world_of_2) ?S"
    using fifty_one_valid by (simp add: created_time_roundtrip)
  have tR: "map ?f ?R = map example_time [0..<51]"
  proof -
    have "map ?f ?R = map the (map (created_time world_of_2) ?R)"
      by (simp add: comp_def)
    also have "\<dots> = map example_time [0..<51]"
      unfolding ct fifty_one_times by (simp add: comp_def)
    finally show ?thesis .
  qed
  have tG: "map ?f ?G = map example_time [55, 56]"
  proof -
    have "map ?f ?G = map the (map (created_time world_of_2) ?G)"
      by (simp add: comp_def)
    also have "\<dots> = map example_time [55, 56]"
      unfolding stored_two_times by simp
    finally show ?thesis .
  qed
  show "mset (?G @ ?R) = mset (?R @ ?G)"
    by simp
  have "distinct (map example_time ([55, 56] @ [0..<51]))"
    unfolding distinct_map by (auto simp: inj_on_def example_time_def)
  then have "distinct (map ?f (?G @ ?R))"
    unfolding map_append tR tG .
  then show "inj_on ?f (set (?G @ ?R))"
    unfolding distinct_map by simp
  have "sorted (map example_time [0..<51])"
    by (auto simp: sorted_iff_nth_mono_less example_time_def)
  then have "sorted (map example_time ([0..<51] @ [55, 56]))"
    by (auto simp: sorted_append example_time_def)
  then show "sorted (map ?f (?R @ ?G))"
    unfolding map_append tR tG .
qed

lemma fifty_one_survivor_ids:
  "map (\<lambda>r. getprop r ''id'')
     (drop 3 (map json_roundtrip (stamped_all world_of_2 fifty_one_maps) @ getAllMaps world_of_2)) =
   map (\<lambda>i. JStr (''carte-'' @ digits i)) ([3..<51] @ [55, 56])"
proof -
  let ?S = "stamped_all world_of_2 fifty_one_maps"
  have "map (\<lambda>r. getprop r ''id'') (map json_roundtrip ?S) = map (\<lambda>r. getprop r ''id'') ?S"
    using fifty_one_valid by (simp add: valid_roundtrip_id)
  then have a: "map (\<lambda>r. getprop r ''id'') (map json_roundtrip ?S) =
                map (\<lambda>i. JStr (''carte-'' @ digits i)) [0..<51]"
    unfolding fifty_one_ids .
  have b: "map (\<lambda>r. getprop r ''id'') (getAllMaps world_of_2) =
           map (\<lambda>i. JStr (''carte-'' @ digits i)) [55, 56]"
    unfolding getAllMaps_world_of_2 by (simp add: example_map_def example_props_lookup)
  have "map (\<lambda>r. getprop r ''id'') (drop 3 (map json_roundtrip ?S @ getAllMaps world_of_2)) =
        drop 3 (map (\<lambda>r. getprop r ''id'') (map json_roundtrip ?S) @
                map (\<lambda>r. getprop r ''id'') (getAllMaps world_of_2))"
    by (simp only: map_append [symmetric] drop_map)
  also have "\<dots> = drop 3 (map (\<lambda>i. JStr (''carte-'' @ digits i)) ([0..<51] @ [55, 56]))"
    unfolding a b by simp
  also have "\<dots> = map (\<lambda>i. JStr (''carte-'' @ digits i)) ([3..<51] @ [55, 56])"
    by (simp add: drop_map)
  finally show ?thesis .
qed

text \<open>The example: 51 maps, made at minutes 0 to 50, are saved into a store that holds the
  maps of minutes 55 and 56. Fifty records remain: those of minutes 3 to 50, 55 and 56.\<close>

theorem cap_enforcement_witness:
  "length fifty_one_maps = MAX_MAPS + 1 \<and>
   length (getAllMaps (saveAll world_of_2 fifty_one_maps)) = MAX_MAPS \<and>
   getAllMaps (saveAll world_of_2 fifty_one_maps) =
     drop 3 (map json_roundtrip (stamped_all world_of_2 fifty_one_maps)) @ [example_map 55, example_map 56] \<and>
   map (\<lambda>r. getprop r ''id'') (getAllMaps (saveAll world_of_2 fifty_one_maps)) =
     map (\<lambda>i. JStr (''carte-'' @ digits i)) ([3..<51] @ [55, 56])"
proof -
  have k: "0 < (1::nat)" by simp
  have T: "length (getAllMaps (saveAll world_of_2 fifty_one_maps)) = MAX_MAPS \<and>
           getAllMaps (saveAll world_of_2 fifty_one_maps) =
             drop (length (getAllMaps world_of_2) + 1)
               (map json_roundtrip (stamped_all world_of_2 fifty_one_maps) @ getAllMaps world_of_2)"
    using cap_enforcement [OF fifty_one_facts(1,2) k fifty_one_valid fifty_one_facts(3,4,5)]
    unfolding fifty_one_sorted .
  have n: "length (getAllMaps world_of_2) + 1 = 3"
    by (simp add: getAllMaps_world_of_2)
  have g: "getAllMaps (saveAll world_of_2 fifty_one_maps) =
             drop 3 (map json_roundtrip (stamped_all world_of_2 fifty_one_maps) @ getAllMaps world_of_2)"
    using T unfolding n by simp
  have i: "map (\<lambda>r. getprop r ''id'') (getAllMaps (saveAll world_of_2 fifty_one_maps)) =
     map (\<lambda>i. JStr (''carte-'' @ digits i)) ([3..<51] @ [55, 56])"
    unfolding g by (rule fifty_one_survivor_ids)
  have d: "drop 3 (map json_roundtrip (stamped_all world_of_2 fifty_one_maps) @ getAllMaps world_of_2) =
           drop 3 (map json_roundtrip (stamped_all world_of_2 fifty_one_maps)) @ [example_map 55, example_map 56]"
    by (simp add: getAllMaps_world_of_2 fifty_one_maps_def)
  show ?thesis
    using T i fifty_one_facts(2) unfolding g d by simp
qed

text \<open>Against the claim as stated (the oldest \<open>k\<close> are evicted): here \<open>k\<close> is 1, the store
  held two maps, and of the 53 records three are evicted: the maps of minutes 1 and 2 go
  with the oldest one.\<close>

theorem three_evicted_for_k_1:
  "length (getAllMaps world_of_2) = 2 \<and>
   length fifty_one_maps = MAX_MAPS + 1 \<and>
   length (getAllMaps (saveAll world_of_2 fifty_one_maps)) = MAX_MAPS \<and>
   map (\<lambda>r. getprop r ''id'') (getAllMaps (saveAll world_of_2 fifty_one_maps)) =
     map (\<lambda>i. JStr (''carte-'' @ digits i)) ([3..<51] @ [55, 56]) \<and>
   JStr ''carte-1'' \<notin> set (map (\<lambda>r. getprop r ''id'') (getAllMaps (saveAll world_of_2 fifty_one_maps))) \<and>
   JStr ''carte-2'' \<notin> set (map (\<lambda>r. getprop r ''id'') (getAllMaps (saveAll world_of_2 fifty_one_maps)))"
proof -
  have k: "0 < (1::nat)" by simp
  have T: "length (getAllMaps (saveAll world_of_2 fifty_one_maps)) = MAX_MAPS \<and>
           getAllMaps (saveAll world_of_2 fifty_one_maps) =
             drop (length (getAllMaps world_of_2) + 1)
               (map json_roundtrip (stamped_all world_of_2 fifty_one_maps) @ getAllMaps world_of_2)"
    using saveAll_newest [OF fifty_one_facts(1,2) k fifty_one_valid fifty_one_facts(3,4,5)]
    unfolding fifty_one_sorted .
  have n: "length (getAllMaps world_of_2) + 1 = 3"
    by (simp add: getAllMaps_world_of_2)
  have g: "getAllMaps (saveAll world_of_2 fifty_one_maps) =
             drop 3 (map json_roundtrip (stamped_all world_of_2 fifty_one_maps) @ getAllMaps world_of_2)"
    using T unfolding n by simp
  have i: "map (\<lambda>r. getprop r ''id'') (getAllMaps (saveAll world_of_2 fifty_one_maps)) =
     map (\<lambda>i. JStr (''carte-'' @ digits i)) ([3..<51] @ [55, 56])"
    unfolding g by (rule fifty_one_survivor_ids)
  have c: "''carte-1'' = ''carte-'' @ digits 1" "''carte-2'' = ''carte-'' @ digits 2"
    by (simp_all add: digits_examples)
  have "JStr (''carte-'' @ digits 1) \<notin> set (map (\<lambda>i. JStr (''carte-'' @ digits i)) ([3..<51] @ [55, 56]))"
    "JStr (''carte-'' @ digits 2) \<notin> set (map (\<lambda>i. JStr (''carte-'' @ digits i)) ([3..<51] @ [55, 56]))"
    by (auto dest!: digits_inj)
  then have o: "JStr ''carte-1'' \<notin> set (map (\<lambda>r. getprop r ''id'') (getAllMaps (saveAll world_of_2 fifty_one_maps)))"
    "JStr ''carte-2'' \<notin> set (map (\<lambda>r. getprop r ''id'') (getAllMaps (saveAll world_of_2 fifty_one_maps)))"
    unfolding i c by simp_all
  show ?thesis
    using T i o fifty_one_facts(2) by (simp add: getAllMaps_world_of_2)
qed

end
